theory Spec2Isabelle
  imports Complex_Main
begin

section \<open>Tensor elements\<close>

text \<open>
  The program computes on tensors of floating-point numbers. For what depends on the
  structure of the computation (which operations, on which elements, in which order), the
  elements are modelled as
  exact reals extended by one not-a-number value: rounding and overflow are left out,
  but division by zero is not. What depends on rounding is stated on the single-precision
  model of \<open>squash\<close> further down. Every operation with a \<open>NaN\<close> operand yields \<open>NaN\<close>, as
  in IEEE arithmetic. The only divisions by zero the program can perform have a zero
  numerator (the squash factor of a zero vector and the mean of an empty tensor), so the
  quotient by zero is \<open>NaN\<close> and no signed infinity is needed.
\<close>

datatype scalar = is_Fin: Fin (the_Fin: real) | NaN

instantiation scalar :: "{comm_monoid_add, comm_monoid_mult, minus, inverse}"
begin

fun plus_scalar :: "scalar \<Rightarrow> scalar \<Rightarrow> scalar" where
  "plus_scalar (Fin x) (Fin y) = Fin (x + y)"
| "plus_scalar _ _ = NaN"

fun minus_scalar :: "scalar \<Rightarrow> scalar \<Rightarrow> scalar" where
  "minus_scalar (Fin x) (Fin y) = Fin (x - y)"
| "minus_scalar _ _ = NaN"

fun times_scalar :: "scalar \<Rightarrow> scalar \<Rightarrow> scalar" where
  "times_scalar (Fin x) (Fin y) = Fin (x * y)"
| "times_scalar _ _ = NaN"

fun divide_scalar :: "scalar \<Rightarrow> scalar \<Rightarrow> scalar" where
  "divide_scalar (Fin x) (Fin y) = (if y = 0 then NaN else Fin (x / y))"
| "divide_scalar _ _ = NaN"

definition zero_scalar :: scalar where
  "zero_scalar = Fin 0"

definition one_scalar :: scalar where
  "one_scalar = Fin 1"

fun inverse_scalar :: "scalar \<Rightarrow> scalar" where
  "inverse_scalar (Fin x) = (if x = 0 then NaN else Fin (1 / x))"
| "inverse_scalar NaN = NaN"

lemma plus_scalar_assoc:
  fixes x y z :: scalar
  shows "(x + y) + z = x + (y + z)"
  by (cases x; cases y; cases z; simp)

lemma plus_scalar_commute:
  fixes x y :: scalar
  shows "x + y = y + x"
  by (cases x; cases y; simp)

lemma times_scalar_assoc:
  fixes x y z :: scalar
  shows "(x * y) * z = x * (y * z)"
  by (cases x; cases y; cases z; simp)

lemma times_scalar_commute:
  fixes x y :: scalar
  shows "x * y = y * x"
  by (cases x; cases y; simp)

instance
proof
  fix x y z :: scalar
  show "x + y + z = x + (y + z)" by (rule plus_scalar_assoc)
  show "x + y = y + x" by (rule plus_scalar_commute)
  show "x * y * z = x * (y * z)" by (rule times_scalar_assoc)
  show "x * y = y * x" by (rule times_scalar_commute)
  show "0 + x = x" unfolding zero_scalar_def by (cases x) simp_all
  show "1 * x = x" unfolding one_scalar_def by (cases x) simp_all
qed

end

text \<open>\<open>torch.sqrt\<close>, \<open>torch.exp\<close> and \<open>F.relu\<close> on one element.\<close>

fun ssqrt :: "scalar \<Rightarrow> scalar" where
  "ssqrt (Fin x) = (if x < 0 then NaN else Fin (sqrt x))"
| "ssqrt NaN = NaN"

fun sexp :: "scalar \<Rightarrow> scalar" where
  "sexp (Fin x) = Fin (exp x)"
| "sexp NaN = NaN"

fun relu :: "scalar \<Rightarrow> scalar" where
  "relu (Fin x) = Fin (max 0 x)"
| "relu NaN = NaN"

section \<open>Tensors\<close>

text \<open>
  A tensor of rank \<open>k\<close> is a \<open>k\<close>-fold nested list, outermost axis first. A nested list
  is a tensor only when it is rectangular; \<open>has_shape3 B N D t\<close> says that \<open>t\<close> is a
  tensor of shape \<open>[B, N, D]\<close>.
\<close>

type_synonym t1 = "scalar list"
type_synonym t2 = "scalar list list"
type_synonym t3 = "scalar list list list"
type_synonym t4 = "scalar list list list list"

definition has_shape1 :: "nat \<Rightarrow> 'a list \<Rightarrow> bool" where
  "has_shape1 D v \<longleftrightarrow> length v = D"

definition has_shape2 :: "nat \<Rightarrow> nat \<Rightarrow> 'a list list \<Rightarrow> bool" where
  "has_shape2 N D m \<longleftrightarrow> length m = N \<and> list_all (has_shape1 D) m"

definition has_shape3 :: "nat \<Rightarrow> nat \<Rightarrow> nat \<Rightarrow> 'a list list list \<Rightarrow> bool" where
  "has_shape3 B N D t \<longleftrightarrow> length t = B \<and> list_all (has_shape2 N D) t"

definition has_shape4 :: "nat \<Rightarrow> nat \<Rightarrow> nat \<Rightarrow> nat \<Rightarrow> 'a list list list list \<Rightarrow> bool" where
  "has_shape4 B I J D t \<longleftrightarrow> length t = B \<and> list_all (has_shape3 I J D) t"

text \<open>
  Elementwise binary operations with PyTorch's broadcasting along one axis: axes of equal
  size are paired, an axis of size 1 is repeated along the other. \<open>bc_ok\<close> is the
  condition under which PyTorch accepts the two sizes; callers check it and raise
  otherwise.
\<close>

definition bc_ok :: "nat \<Rightarrow> nat \<Rightarrow> bool" where
  "bc_ok m n \<longleftrightarrow> m = n \<or> m = 1 \<or> n = 1"

definition bcast :: "('a \<Rightarrow> 'b \<Rightarrow> 'c) \<Rightarrow> 'a list \<Rightarrow> 'b list \<Rightarrow> 'c list" where
  "bcast f xs ys =
     (if length xs = length ys then map2 f xs ys
      else (case xs of [x] \<Rightarrow> map (f x) ys
            | _ \<Rightarrow> (case ys of [y] \<Rightarrow> map (\<lambda>x. f x y) xs | _ \<Rightarrow> [])))"

text \<open>Sum of a vector, as \<open>.sum(dim)\<close> computes it along the last axis.\<close>

definition ssum :: "t1 \<Rightarrow> scalar" where
  "ssum v = sum_list v"

section \<open>squash\<close>

text \<open>
  \<^verbatim>\<open>
  def squash(vec):
      lensq = vec.pow(2).sum(dim=2)
      length = lensq.sqrt()
      vec = vec * (lensq / (1 + lensq) / length).view(vec.size(0), vec.size(1), 1)
      return vec
  \<close>
  \<open>vec\<close> has shape \<open>[B, N, D]\<close>; \<open>lensq\<close>, \<open>length\<close> and the factor have shape \<open>[B, N]\<close>;
  the view gives the factor shape \<open>[B, N, 1]\<close>, which the product broadcasts along the
  last axis.
\<close>

definition pow2 :: "t3 \<Rightarrow> t3" where
  "pow2 t = map (map (map (\<lambda>x. x * x))) t"

definition sum_dim2 :: "t3 \<Rightarrow> t2" where
  "sum_dim2 t = map (map ssum) t"

definition view_BN1 :: "t2 \<Rightarrow> t3" where
  "view_BN1 m = map (map (\<lambda>x. [x])) m"

definition squash :: "t3 \<Rightarrow> t3" where
  "squash vec =
     (let lensq = sum_dim2 (pow2 vec);
          length = map (map ssqrt) lensq;
          factor = map2 (map2 (/))
                     (map2 (map2 (/)) lensq (map (map (\<lambda>x. 1 + x)) lensq)) length
      in map2 (map2 (bcast (*))) vec (view_BN1 factor))"

section \<open>squash in single precision\<close>













section \<open>DynamicRouting\<close>

text \<open>
  PyTorch raises a \<open>RuntimeError\<close> when shapes do not fit (\<open>ShapeError\<close>) and when
  an index is out of range (\<open>IndexError\<close>).
\<close>

datatype error = ShapeError | IndexError

text \<open>
  A nested list cannot tell the sizes of the axes below an empty axis, so a tensor whose
  sizes the program reads (\<open>u_hat.size()\<close>) carries them.
\<close>

record tensor4 =
  size4 :: "nat \<times> nat \<times> nat \<times> nat"
  elems4 :: t4

definition wf_tensor4 :: "tensor4 \<Rightarrow> bool" where
  "wf_tensor4 u = (case size4 u of (B, I, J, D) \<Rightarrow> has_shape4 B I J D (elems4 u))"

text \<open>
  \<open>F.softmax(x, dim=1)\<close> on a tensor of rank 2 normalises every row:
  \<open>softmax(x)\<^sub>j = exp x\<^sub>j / \<Sum>\<^sub>k exp x\<^sub>k\<close>.
\<close>

definition softmax_vec :: "t1 \<Rightarrow> t1" where
  "softmax_vec x = map (\<lambda>xj. sexp xj / ssum (map sexp x)) x"

definition softmax_dim1 :: "t2 \<Rightarrow> t2" where
  "softmax_dim1 x = map softmax_vec x"

text \<open>
  \<^verbatim>\<open>
  class DynamicRouting(nn.Module):
      def __init__(self, input_caps, output_caps, n_iterations):
          self.n_iterations = n_iterations
          self.b = nn.Parameter(torch.zeros(input_caps, output_caps))
  \<close>
  \<open>b_size\<close> is \<open>self.b.size()\<close>.
\<close>

record DynamicRouting =
  n_iterations :: int
  b_size :: "nat \<times> nat"
  b :: t2

definition DynamicRouting_init :: "nat \<Rightarrow> nat \<Rightarrow> int \<Rightarrow> DynamicRouting" where
  "DynamicRouting_init input_caps output_caps n =
     \<lparr>n_iterations = n, b_size = (input_caps, output_caps),
      b = replicate input_caps (replicate output_caps 0)\<rparr>"

definition wf_DynamicRouting :: "DynamicRouting \<Rightarrow> bool" where
  "wf_DynamicRouting m = (case b_size m of (I, J) \<Rightarrow> has_shape2 I J (b m))"

text \<open>The size of a broadcast axis.\<close>

definition bdim :: "nat \<Rightarrow> nat \<Rightarrow> nat" where
  "bdim m n = (if m = 1 then n else m)"

text \<open>\<open>x * y\<close> and \<open>x + y\<close> on tensors, broadcasting on every axis.\<close>

definition mul3 :: "t3 \<Rightarrow> t3 \<Rightarrow> t3" where
  "mul3 x y = bcast (bcast (bcast (*))) x y"

definition mul4 :: "t4 \<Rightarrow> t4 \<Rightarrow> t4" where
  "mul4 x y = bcast mul3 x y"

definition add2 :: "t2 \<Rightarrow> t2 \<Rightarrow> t2" where
  "add2 x y = bcast (bcast (+)) x y"

definition add3 :: "t3 \<Rightarrow> t3 \<Rightarrow> t3" where
  "add3 x y = bcast add2 x y"

text \<open>\<open>c.unsqueeze(2)\<close> on rank 2 and \<open>v.unsqueeze(1)\<close> on rank 3.\<close>

definition unsqueeze2 :: "t2 \<Rightarrow> t3" where
  "unsqueeze2 c = map (map (\<lambda>x. [x])) c"

definition unsqueeze1 :: "t3 \<Rightarrow> t4" where
  "unsqueeze1 t = map (\<lambda>m. [m]) t"

text \<open>
  \<open>x.sum(dim=1)\<close> on a tensor of shape \<open>[B, I, J, D]\<close>: the \<open>I\<close> matrices of every
  batch item are added up, starting from the zero matrix of shape \<open>[J, D]\<close>.
  \<open>x.sum(-1)\<close> adds up every innermost vector.
\<close>

definition zeros2 :: "nat \<Rightarrow> nat \<Rightarrow> t2" where
  "zeros2 J D = replicate J (replicate D 0)"

definition sum_dim1 :: "nat \<Rightarrow> nat \<Rightarrow> t4 \<Rightarrow> t3" where
  "sum_dim1 J D x = map (\<lambda>m. foldr (map2 (map2 (+))) m (zeros2 J D)) x"

definition sum_last :: "t4 \<Rightarrow> t3" where
  "sum_last x = map (map (map ssum)) x"

text \<open>
  \<open>self.b.expand((B, I, J))\<close>: an axis of \<open>b\<close> must have the requested size or size 1,
  and an axis of size 1 is repeated; the new leading axis repeats the whole matrix.
\<close>

definition expand_ok :: "nat \<times> nat \<Rightarrow> nat \<Rightarrow> nat \<Rightarrow> bool" where
  "expand_ok sz I J = (case sz of (bi, bj) \<Rightarrow> (bi = I \<or> bi = 1) \<and> (bj = J \<or> bj = 1))"

definition expand_axis :: "nat \<Rightarrow> 'a list \<Rightarrow> 'a list" where
  "expand_axis n xs =
     (if length xs = n then xs else (case xs of [x] \<Rightarrow> replicate n x | _ \<Rightarrow> []))"

definition expand :: "nat \<Rightarrow> nat \<Rightarrow> nat \<Rightarrow> t2 \<Rightarrow> t3" where
  "expand B I J x = replicate B (expand_axis I (map (expand_axis J) x))"

text \<open>
  \<open>x.view(-1, J)\<close> on a contiguous tensor of shape \<open>[B, I, J]\<close> makes the rows of all
  batch items one list of rows. A view with \<open>-1\<close> is refused when the other sizes
  multiply to 0, or do not divide the number of elements.
\<close>

definition view_rows :: "nat \<Rightarrow> nat \<Rightarrow> nat \<Rightarrow> t3 \<Rightarrow> error + t2" where
  "view_rows B I J x =
     (if J = 0 \<or> (B * I * J) mod J \<noteq> 0 then Inl ShapeError else Inr (concat x))"

text \<open>\<open>chunks k n xs\<close> cuts \<open>xs\<close> into \<open>k\<close> consecutive pieces of length \<open>n\<close>.\<close>

primrec chunks :: "nat \<Rightarrow> nat \<Rightarrow> 'a list \<Rightarrow> 'a list list" where
  "chunks 0 n xs = []"
| "chunks (Suc k) n xs = take n xs # chunks k n (drop n xs)"

text \<open>
  \<open>x.view(-1, I, J, 1)\<close> on a tensor of shape \<open>[R, J]\<close>: consecutive groups of \<open>I\<close> rows
  become the batch items, and every element becomes a vector of length 1.
\<close>

definition view_coupling :: "nat \<Rightarrow> nat \<Rightarrow> nat \<Rightarrow> t2 \<Rightarrow> error + t4" where
  "view_coupling R I J x =
     (if I * J * 1 = 0 \<or> (R * J) mod (I * J * 1) \<noteq> 0 then Inl ShapeError
      else Inr (map (map (map (\<lambda>e. [e]))) (chunks ((R * J) div (I * J * 1)) I x)))"

text \<open>
  One pass of the loop body (lines 36 to 41), statement by statement. The frame holds the
  module and the local variables \<open>b_batch\<close> and \<open>v\<close>; the body rebinds the two
  locals and assigns to no attribute of the module.
  \<^verbatim>\<open>
  v = v.unsqueeze(1)
  b_batch = b_batch + (u_hat * v).sum(-1)
  c = F.softmax(b_batch.view(-1, output_caps), dim=1).view(-1, input_caps, output_caps, 1)
  s = (c * u_hat).sum(dim=1)
  v = squash(s)
  \<close>
  \<open>round_logits\<close> is the new value of \<open>b_batch\<close> (lines 36 and 37) and
  \<open>round_coupling\<close> the coupling \<open>c\<close> computed from it (line 39).
\<close>

type_synonym frame = "DynamicRouting \<times> t3 \<times> t3"

definition round_logits :: "tensor4 \<Rightarrow> t3 \<Rightarrow> t3 \<Rightarrow> t3" where
  "round_logits u_hat b_batch v =
     (let v1 = unsqueeze1 v
      in add3 b_batch (sum_last (mul4 (elems4 u_hat) v1)))"

definition round_coupling :: "tensor4 \<Rightarrow> t3 \<Rightarrow> error + t4" where
  "round_coupling u_hat b_batch =
     (case size4 u_hat of (batch_size, input_caps, output_caps, output_dim) \<Rightarrow>
       (case view_rows batch_size input_caps output_caps b_batch of
          Inl e \<Rightarrow> Inl e
        | Inr rows \<Rightarrow>
            view_coupling (batch_size * input_caps) input_caps output_caps
              (softmax_dim1 rows)))"

definition routing_round :: "tensor4 \<Rightarrow> frame \<Rightarrow> error + frame" where
  "routing_round u_hat fr =
     (case fr of (self, b_batch, v) \<Rightarrow>
      (case size4 u_hat of (batch_size, input_caps, output_caps, output_dim) \<Rightarrow>
        let b_batch1 = round_logits u_hat b_batch v
        in (case round_coupling u_hat b_batch1 of
              Inl e \<Rightarrow> Inl e
            | Inr c \<Rightarrow>
                let s = sum_dim1 output_caps output_dim (mul4 c (elems4 u_hat))
                in Inr (self, b_batch1, squash s))))"

text \<open>\<open>for r in range(self.n_iterations)\<close>: the body runs once for every element.\<close>

fun routing_loop :: "tensor4 \<Rightarrow> nat list \<Rightarrow> frame \<Rightarrow> error + frame" where
  "routing_loop u_hat [] fr = Inr fr"
| "routing_loop u_hat (r # rs) fr =
     (case routing_round u_hat fr of
        Inl e \<Rightarrow> Inl e
      | Inr fr' \<Rightarrow> routing_loop u_hat rs fr')"

text \<open>
  \<^verbatim>\<open>
  def forward(self, u_hat):
      batch_size, input_caps, output_caps, output_dim = u_hat.size()
      c = F.softmax(self.b, dim=1)
      s = (c.unsqueeze(2) * u_hat).sum(dim=1)
      v = squash(s)
      if self.n_iterations > 0:
          b_batch = self.b.expand((batch_size, input_caps, output_caps))
          for r in range(self.n_iterations):
              ...
      return v
  \<close>
  The call returns the value (or the exception) and the module as the call leaves it.
  In line 30 the coupling has shape \<open>[I', J', 1]\<close> and is broadcast against
  \<open>[B, I, J, D]\<close>.
\<close>

definition forward :: "DynamicRouting \<Rightarrow> tensor4 \<Rightarrow> (error + t3) \<times> DynamicRouting" where
  "forward self u_hat =
     (case size4 u_hat of (batch_size, input_caps, output_caps, output_dim) \<Rightarrow>
      (case b_size self of (bi, bj) \<Rightarrow>
        let c = softmax_dim1 (b self)
        in if \<not> (bc_ok bi input_caps \<and> bc_ok bj output_caps) then (Inl ShapeError, self)
           else
             let s = sum_dim1 (bdim bj output_caps) output_dim
                       (mul4 [unsqueeze2 c] (elems4 u_hat));
                 v = squash s
             in if n_iterations self > 0 then
                  if \<not> expand_ok (b_size self) input_caps output_caps
                  then (Inl ShapeError, self)
                  else
                    let b_batch = expand batch_size input_caps output_caps (b self)
                    in (case routing_loop u_hat [0..<nat (n_iterations self)]
                               (self, b_batch, v) of
                          Inl e \<Rightarrow> (Inl e, self)
                        | Inr (self', b_batch', v') \<Rightarrow> (Inr v', self'))
                else (Inr v, self)))"

text \<open>
  The frame with which the loop starts (lines 29 to 34), and the frames the loop produces:
  \<open>routing_trace\<close> lists the frame after every pass of the body that was executed.
\<close>

definition initial_frame :: "DynamicRouting \<Rightarrow> tensor4 \<Rightarrow> frame" where
  "initial_frame self u_hat =
     (case size4 u_hat of (batch_size, input_caps, output_caps, output_dim) \<Rightarrow>
      (case b_size self of (bi, bj) \<Rightarrow>
        (self, expand batch_size input_caps output_caps (b self),
         squash (sum_dim1 (bdim bj output_caps) output_dim
                   (mul4 [unsqueeze2 (softmax_dim1 (b self))] (elems4 u_hat))))))"

fun routing_trace :: "tensor4 \<Rightarrow> nat list \<Rightarrow> frame \<Rightarrow> frame list" where
  "routing_trace u_hat [] fr = []"
| "routing_trace u_hat (r # rs) fr =
     (case routing_round u_hat fr of
        Inl e \<Rightarrow> []
      | Inr fr' \<Rightarrow> fr' # routing_trace u_hat rs fr')"

section \<open>MarginLoss\<close>

text \<open>
  \<^verbatim>\<open>
  class MarginLoss(nn.Module):
      def __init__(self, m_p, m_m, lambda_):
          self.m_plus = m_p
          self.m_minus = m_m
          self.lambda_ = lambda_
  \<close>
\<close>

text \<open>The field \<open>lambda\<close> is the attribute \<open>lambda_\<close>.\<close>

record MarginLoss =
  m_plus :: real
  m_minus :: real
  lambda :: real

text \<open>
  \<open>t.scatter_(1, targets.view(-1, 1), 1)\<close> on the zero matrix \<open>t\<close>: row \<open>k\<close> gets a 1 in
  column \<open>targets[k]\<close>. The index may have fewer rows than \<open>t\<close>, not more, and every
  index must be a column of \<open>t\<close>.
\<close>

fun scatter_rows :: "int list list \<Rightarrow> int list \<Rightarrow> error + int list list" where
  "scatter_rows t [] = Inr t"
| "scatter_rows [] (i # is) = Inl ShapeError"
| "scatter_rows (row # t) (i # is) =
     (if 0 \<le> i \<and> i < int (length row)
      then (case scatter_rows t is of
              Inl e \<Rightarrow> Inl e
            | Inr t' \<Rightarrow> Inr (row[nat i := 1] # t'))
      else Inl IndexError)"

definition scatter_inplace :: "int list list \<Rightarrow> int list \<Rightarrow> error + int list list" where
  "scatter_inplace t targets =
     (if length targets > length t then Inl ShapeError else scatter_rows t targets)"

text \<open>\<open>t.float()\<close> on a tensor of integers.\<close>

definition to_float :: "int list list \<Rightarrow> t2" where
  "to_float t = map (map (\<lambda>i. Fin (of_int i))) t"

text \<open>
  \<^verbatim>\<open>
  def forward(self, length, targets, loss_sum = True):
      t = torch.zeros(length.size()).long()
      t = t.scatter_(1, targets.data.view(-1, 1), 1)
      targets = Variable(t)
      losses = (targets.float() * F.relu(self.m_plus - length).pow(2) +
                self.lambda_ * (1. - targets.float()) * F.relu(length - self.m_minus).pow(2))
      return losses.mean() if loss_sum else losses.sum()
  \<close>
  \<open>length\<close> has shape \<open>[B, C]\<close>. The mean is the sum divided by the number of elements.
\<close>

definition loss_entry :: "MarginLoss \<Rightarrow> scalar \<Rightarrow> scalar \<Rightarrow> scalar" where
  "loss_entry self t len =
     (let p = relu (Fin (m_plus self) - len);
          q = relu (len - Fin (m_minus self))
      in t * (p * p) + Fin (lambda self) * (Fin 1 - t) * (q * q))"

definition losses :: "MarginLoss \<Rightarrow> t2 \<Rightarrow> t2 \<Rightarrow> t2" where
  "losses self t len = map2 (map2 (loss_entry self)) t len"

text \<open>Lines 117 to 124: the matrix \<open>losses\<close>, or the exception of \<open>scatter_\<close>.\<close>

definition MarginLoss_losses :: "MarginLoss \<Rightarrow> t2 \<Rightarrow> int list \<Rightarrow> error + t2" where
  "MarginLoss_losses self len targets =
     (let t = map (map (\<lambda>_. 0)) len
      in (case scatter_inplace t targets of
            Inl e \<Rightarrow> Inl e
          | Inr t' \<Rightarrow> Inr (losses self (to_float t') len)))"

text \<open>\<open>x.sum()\<close> and \<open>x.mean()\<close> over all elements of a matrix.\<close>

definition sum_all :: "t2 \<Rightarrow> scalar" where
  "sum_all x = ssum (concat x)"

definition mean_all :: "t2 \<Rightarrow> scalar" where
  "mean_all x = sum_all x / Fin (real (length (concat x)))"

definition MarginLoss_forward :: "MarginLoss \<Rightarrow> t2 \<Rightarrow> int list \<Rightarrow> bool \<Rightarrow> error + scalar" where
  "MarginLoss_forward self len targets loss_sum =
     (case MarginLoss_losses self len targets of
        Inl e \<Rightarrow> Inl e
      | Inr l \<Rightarrow> Inr (if loss_sum then mean_all l else sum_all l))"

section \<open>Convolution\<close>

text \<open>
  \<open>nn.Conv2d(in_channels, out_channels, kernel_size, stride)\<close> is library code, modelled
  from its documentation: a cross-correlation without padding or dilation,
  \<open>out[n][o][y][x] = bias[o] + \<Sum>\<^sub>c \<Sum>\<^sub>k\<^sub>y \<Sum>\<^sub>k\<^sub>x weight[o][c][ky][kx] \<cdot> in[n][c][y\<cdot>s + ky][x\<cdot>s + kx]\<close>,
  on an output of height \<open>(H - k) div s + 1\<close> and width \<open>(W - k) div s + 1\<close>. The input must
  have \<open>in_channels\<close> channels and be at least as large as the kernel.
  \<open>weight\<close> has shape \<open>[out_channels, in_channels, k, k]\<close> and \<open>bias\<close> shape \<open>[out_channels]\<close>.
\<close>

record Conv2d =
  in_channels :: nat
  out_channels :: nat
  kernel_size :: nat
  stride :: nat
  weight :: t4
  bias :: t1

definition wf_Conv2d :: "Conv2d \<Rightarrow> bool" where
  "wf_Conv2d m \<longleftrightarrow>
     0 < kernel_size m \<and> 0 < stride m \<and>
     has_shape4 (out_channels m) (in_channels m) (kernel_size m) (kernel_size m) (weight m) \<and>
     has_shape1 (out_channels m) (bias m)"

definition conv_out :: "nat \<Rightarrow> nat \<Rightarrow> nat \<Rightarrow> nat" where
  "conv_out H k s = (H - k) div s + 1"

definition conv_at :: "Conv2d \<Rightarrow> t3 \<Rightarrow> nat \<Rightarrow> nat \<Rightarrow> nat \<Rightarrow> scalar" where
  "conv_at m xn co y x =
     bias m ! co +
     (\<Sum>c\<leftarrow>[0..<in_channels m]. \<Sum>ky\<leftarrow>[0..<kernel_size m]. \<Sum>kx\<leftarrow>[0..<kernel_size m].
        weight m ! co ! c ! ky ! kx * xn ! c ! (y * stride m + ky) ! (x * stride m + kx))"

definition Conv2d_forward :: "Conv2d \<Rightarrow> tensor4 \<Rightarrow> error + tensor4" where
  "Conv2d_forward m input =
     (case size4 input of (N, C, H, W) \<Rightarrow>
        if C \<noteq> in_channels m \<or> H < kernel_size m \<or> W < kernel_size m then Inl ShapeError
        else
          let H' = conv_out H (kernel_size m) (stride m);
              W' = conv_out W (kernel_size m) (stride m)
          in Inr \<lparr>size4 = (N, out_channels m, H', W'),
                  elems4 = map (\<lambda>xn. map (\<lambda>co. map (\<lambda>y. map (\<lambda>x. conv_at m xn co y x)
                                   [0..<W']) [0..<H']) [0..<out_channels m]) (elems4 input)\<rparr>)"

text \<open>\<open>F.relu\<close> on a tensor of rank 4.\<close>

definition relu4 :: "tensor4 \<Rightarrow> tensor4" where
  "relu4 x = \<lparr>size4 = size4 x, elems4 = map (map (map (map relu))) (elems4 x)\<rparr>"

section \<open>FirstCapsuleLayer\<close>

text \<open>
  \<^verbatim>\<open>
  class FirstCapsuleLayer(nn.Module):
      def __init__(self, input_channels, output_caps, output_dim, kernel_size, stride):
          self.conv1 = nn.Conv2d(input_channels, output_caps * output_dim,
                                 kernel_size=kernel_size, stride=stride)
          self.input_channels = input_channels
          self.output_caps = output_caps
          self.output_dim = output_dim

      def forward(self, input):
          out = self.conv1(input)
          N, C, H, W = out.shape
          out = out.view(N, self.output_caps, self.output_dim, H, W)
          out = out.permute(0, 1, 3, 4, 2).contiguous()
          out = out.view(out.size(0), -1, out.size(4))
          out = squash(out)
          return out
  \<close>
  The first view needs as many elements as the tensor has; it cuts the channels of every
  batch item into \<open>output_caps\<close> groups of \<open>output_dim\<close>. The permutation moves the axis
  of the capsule dimension last, and the second view makes (capsule type, row, column)
  one axis; its \<open>-1\<close> is refused when \<open>N \<cdot> output_dim = 0\<close>.
\<close>

record tensor3 =
  size3 :: "nat \<times> nat \<times> nat"
  elems3 :: t3

definition wf_tensor3 :: "tensor3 \<Rightarrow> bool" where
  "wf_tensor3 x = (case size3 x of (B, N, D) \<Rightarrow> has_shape3 B N D (elems3 x))"

record FirstCapsuleLayer =
  conv1 :: Conv2d
  input_channels :: nat
  output_caps :: nat
  output_dim :: nat

definition FirstCapsuleLayer_init ::
  "nat \<Rightarrow> nat \<Rightarrow> nat \<Rightarrow> nat \<Rightarrow> nat \<Rightarrow> t4 \<Rightarrow> t1 \<Rightarrow> FirstCapsuleLayer" where
  "FirstCapsuleLayer_init in_ch out_caps out_dim ksize strd w bs =
     \<lparr>conv1 = \<lparr>in_channels = in_ch, out_channels = out_caps * out_dim,
                kernel_size = ksize, stride = strd, weight = w, bias = bs\<rparr>,
      input_channels = in_ch, output_caps = out_caps, output_dim = out_dim\<rparr>"

definition permute_01342 :: "nat \<Rightarrow> nat \<Rightarrow> nat \<Rightarrow> t3 \<Rightarrow> t3" where
  "permute_01342 D H W m =
     map (\<lambda>y. map (\<lambda>x. map (\<lambda>d. m ! d ! y ! x) [0..<D]) [0..<W]) [0..<H]"

definition FirstCapsuleLayer_forward :: "FirstCapsuleLayer \<Rightarrow> tensor4 \<Rightarrow> error + tensor3" where
  "FirstCapsuleLayer_forward self input =
     (case Conv2d_forward (FirstCapsuleLayer.conv1 self) input of
        Inl e \<Rightarrow> Inl e
      | Inr out \<Rightarrow>
         (case size4 out of (N, C, H, W) \<Rightarrow>
            let caps = FirstCapsuleLayer.output_caps self;
                dim = FirstCapsuleLayer.output_dim self
            in if N * C * H * W \<noteq> N * caps * dim * H * W then Inl ShapeError
               else
                 let out5 = map (chunks caps dim) (elems4 out);
                     perm = map (map (permute_01342 dim H W)) out5
                 in if N * dim = 0 \<or> (N * caps * H * W * dim) mod (N * dim) \<noteq> 0
                    then Inl ShapeError
                    else
                      let P = (N * caps * H * W * dim) div (N * dim);
                          caps3 = map (\<lambda>item. concat (map concat item)) perm
                      in Inr \<lparr>size3 = (N, P, dim), elems3 = squash caps3\<rparr>))"

section \<open>CapsLayer\<close>

text \<open>
  \<^verbatim>\<open>
  class CapsLayer(nn.Module):
      def __init__(self, input_caps, input_dim, output_caps, output_dim, routing_module):
          self.input_caps = input_caps
          self.input_dim = input_dim
          self.output_caps = output_caps
          self.output_dim = output_dim
          self.weights = nn.Parameter(torch.Tensor(input_caps, input_dim, output_dim * output_caps))
          self.routing_module = routing_module

      def forward(self, x):
          x = x.unsqueeze(2)
          u_hat = x.matmul(self.weights)
          u_hat = u_hat.view(u_hat.size(0), self.input_caps, self.output_caps, self.output_dim)
          v = self.routing_module(u_hat)
          return v
  \<close>
  \<open>x\<close> has shape \<open>[N, P, K]\<close>. The product multiplies the \<open>1 \<times> K\<close> matrix of every capsule
  with a matrix of \<open>weights\<close>, broadcasting the capsule axis \<open>P\<close> against \<open>input_caps\<close>;
  \<open>K\<close> must be \<open>input_dim\<close>. The view regroups the elements of every batch item.
\<close>

record CapsLayer =
  input_caps :: nat
  input_dim :: nat
  output_caps :: nat
  output_dim :: nat
  weights :: t3
  routing_module :: DynamicRouting

definition wf_CapsLayer :: "CapsLayer \<Rightarrow> bool" where
  "wf_CapsLayer m \<longleftrightarrow>
     has_shape3 (input_caps m) (input_dim m)
       (CapsLayer.output_dim m * CapsLayer.output_caps m) (weights m) \<and>
     wf_DynamicRouting (routing_module m)"

definition vec_mat :: "nat \<Rightarrow> nat \<Rightarrow> t1 \<Rightarrow> t2 \<Rightarrow> t1" where
  "vec_mat K M xv w = map (\<lambda>m. \<Sum>k\<leftarrow>[0..<K]. xv ! k * w ! k ! m) [0..<M]"

definition matmul :: "nat \<Rightarrow> nat \<Rightarrow> t4 \<Rightarrow> t3 \<Rightarrow> t4" where
  "matmul K M x w = map (\<lambda>xn. bcast (\<lambda>rows wi. map (\<lambda>xv. vec_mat K M xv wi) rows) xn w) x"

definition unsqueeze2_3 :: "t3 \<Rightarrow> t4" where
  "unsqueeze2_3 x = map (map (\<lambda>xv. [xv])) x"

definition view_votes :: "nat \<Rightarrow> nat \<Rightarrow> nat \<Rightarrow> t3 \<Rightarrow> t3" where
  "view_votes I J D item = map (chunks J D) (chunks I (J * D) (concat (concat item)))"

definition CapsLayer_forward ::
  "CapsLayer \<Rightarrow> tensor3 \<Rightarrow> (error + t3) \<times> CapsLayer" where
  "CapsLayer_forward self x =
     (case size3 x of (N, P, K) \<Rightarrow>
        let M = CapsLayer.output_dim self * CapsLayer.output_caps self
        in if \<not> bc_ok P (input_caps self) \<or> K \<noteq> input_dim self then (Inl ShapeError, self)
           else
             let x4 = unsqueeze2_3 (elems3 x);
                 prod = matmul K M x4 (weights self);
                 P' = bdim P (input_caps self)
             in if N * P' * 1 * M \<noteq>
                     N * input_caps self * CapsLayer.output_caps self * CapsLayer.output_dim self
                then (Inl ShapeError, self)
                else
                  let u_hat = \<lparr>size4 = (N, input_caps self, CapsLayer.output_caps self,
                                         CapsLayer.output_dim self),
                               elems4 = map (view_votes (input_caps self)
                                  (CapsLayer.output_caps self) (CapsLayer.output_dim self)) prod\<rparr>
                  in (case forward (routing_module self) u_hat of
                        (res, rm) \<Rightarrow> (res, self\<lparr>routing_module := rm\<rparr>)))"

section \<open>CapsuleNet\<close>

text \<open>
  \<^verbatim>\<open>
  class CapsuleNet(nn.Module):
      def __init__(self, routing_iterations, n_classes=10):
          self.conv1 = nn.Conv2d(1, 256, kernel_size=9, stride=1)
          self.firstCaps = FirstCapsuleLayer(256, 32, 8, kernel_size=9, stride=2)
          self.num_firstCaps = 32 * 6 * 6
          routing_module = DynamicRouting(self.num_firstCaps, n_classes, routing_iterations)
          self.Caps = CapsLayer(self.num_firstCaps, 8, n_classes, 16, routing_module)

      def forward(self, x):
          x = self.conv1(x)
          x = F.relu(x)
          x = self.firstCaps(x)
          x = self.Caps(x)
          probs = x.pow(2).sum(dim=2).sqrt()
          return x, probs
  \<close>
  The constructor fixes the sizes; the values of the parameters (the weights and biases
  of the two convolutions, \<open>weights\<close> of the capsule layer and \<open>b\<close> of the routing) are
  what initialisation and training make them, and are arguments of the model's
  constructor.
\<close>

record CapsuleNet =
  conv1 :: Conv2d
  firstCaps :: FirstCapsuleLayer
  num_firstCaps :: nat
  Caps :: CapsLayer

definition CapsuleNet_init ::
  "int \<Rightarrow> nat \<Rightarrow> t4 \<Rightarrow> t1 \<Rightarrow> t4 \<Rightarrow> t1 \<Rightarrow> t3 \<Rightarrow> t2 \<Rightarrow> CapsuleNet" where
  "CapsuleNet_init routing_iterations n_classes w1 b1 w2 b2 ws bb =
     (let num = 32 * 6 * 6;
          rm = (DynamicRouting_init num n_classes routing_iterations)\<lparr>b := bb\<rparr>
      in \<lparr>conv1 = \<lparr>in_channels = 1, out_channels = 256, kernel_size = 9, stride = 1,
                      weight = w1, bias = b1\<rparr>,
          firstCaps = FirstCapsuleLayer_init 256 32 8 9 2 w2 b2,
          num_firstCaps = num,
          Caps = \<lparr>input_caps = num, input_dim = 8, output_caps = n_classes, output_dim = 16,
                   weights = ws, routing_module = rm\<rparr>\<rparr>)"

definition wf_CapsuleNet :: "CapsuleNet \<Rightarrow> bool" where
  "wf_CapsuleNet net \<longleftrightarrow>
     wf_Conv2d (CapsuleNet.conv1 net) \<and>
     wf_Conv2d (FirstCapsuleLayer.conv1 (firstCaps net)) \<and>
     wf_CapsLayer (Caps net)"

definition norms :: "t3 \<Rightarrow> t2" where
  "norms x = map (map ssqrt) (sum_dim2 (pow2 x))"

definition CapsuleNet_forward ::
  "CapsuleNet \<Rightarrow> tensor4 \<Rightarrow> (error + t3 \<times> t2) \<times> CapsuleNet" where
  "CapsuleNet_forward self x =
     (case Conv2d_forward (CapsuleNet.conv1 self) x of
        Inl e \<Rightarrow> (Inl e, self)
      | Inr x1 \<Rightarrow>
         (case FirstCapsuleLayer_forward (firstCaps self) (relu4 x1) of
            Inl e \<Rightarrow> (Inl e, self)
          | Inr x3 \<Rightarrow>
             (case CapsLayer_forward (Caps self) x3 of
                (Inl e, caps') \<Rightarrow> (Inl e, self\<lparr>Caps := caps'\<rparr>)
              | (Inr x4, caps') \<Rightarrow> (Inr (x4, norms x4), self\<lparr>Caps := caps'\<rparr>))))"

section \<open>Derived forms\<close>

text \<open>The effect of \<open>squash\<close> on one capsule vector.\<close>

definition squash_vec :: "t1 \<Rightarrow> t1" where
  "squash_vec v =
     (let lensq = ssum (map (\<lambda>x. x * x) v)
      in map (\<lambda>x. x * (lensq / (1 + lensq) / ssqrt lensq)) v)"

section \<open>Specification-level notions\<close>

text \<open>
  Tensors all of whose elements are finite are the images of real tensors. The squared
  norm and the Euclidean norm of a real vector, and the squash formula as the
  specification writes it: \<open>v \<cdot> (s / (1 + s)) / sqrt s\<close> with \<open>s\<close> the squared norm of \<open>v\<close>.
\<close>

definition embed1 :: "real list \<Rightarrow> t1" where
  "embed1 r = map Fin r"

definition embed2 :: "real list list \<Rightarrow> t2" where
  "embed2 r = map embed1 r"





text \<open>
  A vector is finite when none of its elements is NaN, and a probability distribution
  when it is finite, its elements are non-negative and they sum to 1.
\<close>

definition finite_vec :: "t1 \<Rightarrow> bool" where
  "finite_vec x = list_all is_Fin x"

definition is_distribution :: "t1 \<Rightarrow> bool" where
  "is_distribution x \<longleftrightarrow>
     finite_vec x \<and> list_all (\<lambda>e. 0 \<le> the_Fin e) x \<and> ssum x = Fin 1"

text \<open>
  Dynamic routing as the specification words it, on votes \<open>U\<close> of shape \<open>[B, I, J, D]\<close>
  (batch, input capsules, output capsules, output dimension).
  The coupling of a row of logits is its softmax along the output-capsule axis; the
  weighted sum is \<open>s\<^sub>j = \<Sum>\<^sub>i c\<^sub>i\<^sub>j \<cdot> u_hat\<^sub>i\<^sub>j\<close>; the agreement step adds to the logit of
  every pair (input \<open>i\<close>, output \<open>j\<close>) the dot product of the vote of \<open>i\<close> for \<open>j\<close> with the
  current output vector \<open>v\<^sub>j\<close>. The initial coupling is the softmax of \<open>b\<close>; the running
  logits start as \<open>b\<close> for every batch item; a round is agreement, coupling, weighted
  sum and squash.
\<close>

definition spec_softmax :: "nat \<Rightarrow> t1 \<Rightarrow> nat \<Rightarrow> scalar" where
  "spec_softmax J l j = sexp (l ! j) / (\<Sum>k\<leftarrow>[0..<J]. sexp (l ! k))"

definition spec_weighted_sum ::
  "nat \<times> nat \<times> nat \<times> nat \<Rightarrow> (nat \<Rightarrow> nat \<Rightarrow> nat \<Rightarrow> scalar) \<Rightarrow> t4 \<Rightarrow> t3" where
  "spec_weighted_sum sz c U = (case sz of (B, I, J, D) \<Rightarrow>
     map (\<lambda>n. map (\<lambda>j. map (\<lambda>d. \<Sum>i\<leftarrow>[0..<I]. c n i j * U ! n ! i ! j ! d) [0..<D]) [0..<J])
       [0..<B])"

definition spec_agreement :: "nat \<times> nat \<times> nat \<times> nat \<Rightarrow> t3 \<Rightarrow> t4 \<Rightarrow> t3 \<Rightarrow> t3" where
  "spec_agreement sz L U V = (case sz of (B, I, J, D) \<Rightarrow>
     map (\<lambda>n. map (\<lambda>i. map (\<lambda>j.
        L ! n ! i ! j + (\<Sum>d\<leftarrow>[0..<D]. U ! n ! i ! j ! d * V ! n ! j ! d)) [0..<J]) [0..<I])
       [0..<B])"

definition spec_round :: "nat \<times> nat \<times> nat \<times> nat \<Rightarrow> t4 \<Rightarrow> t3 \<times> t3 \<Rightarrow> t3 \<times> t3" where
  "spec_round sz U st = (case sz of (B, I, J, D) \<Rightarrow> (case st of (L, V) \<Rightarrow>
     let L' = spec_agreement sz L U V;
         c = (\<lambda>n i j. spec_softmax J (L' ! n ! i) j);
         s = spec_weighted_sum sz c U
     in (L', squash s)))"

definition spec_initial :: "nat \<times> nat \<times> nat \<times> nat \<Rightarrow> t2 \<Rightarrow> t4 \<Rightarrow> t3 \<times> t3" where
  "spec_initial sz bb U = (case sz of (B, I, J, D) \<Rightarrow>
     let c = (\<lambda>n i j. spec_softmax J (bb ! i) j);
         s = spec_weighted_sum sz c U
     in (replicate B bb, squash s))"

definition spec_routing :: "t2 \<Rightarrow> nat \<Rightarrow> tensor4 \<Rightarrow> t3" where
  "spec_routing bb n u =
     snd ((spec_round (size4 u) (elems4 u) ^^ n) (spec_initial (size4 u) bb (elems4 u)))"

text \<open>
  The margin loss as the specification words it: the penalty of one entry is
  \<open>max(0, m_plus - length)\<^sup>2\<close> for the target class and
  \<open>lambda \<cdot> max(0, length - m_minus)\<^sup>2\<close> for every other class.
\<close>

definition spec_penalty :: "MarginLoss \<Rightarrow> bool \<Rightarrow> real \<Rightarrow> real" where
  "spec_penalty self is_target len =
     (if is_target then (max 0 (m_plus self - len))\<^sup>2
      else lambda self * (max 0 (len - m_minus self))\<^sup>2)"

definition valid_targets :: "nat \<Rightarrow> int list \<Rightarrow> bool" where
  "valid_targets C targets = list_all (\<lambda>t. 0 \<le> t \<and> t < int C) targets"

section \<open>Properties of squash\<close>

lemma map2_map_same: "map2 f (map g xs) (map h xs) = map (\<lambda>x. f (g x) (h x)) xs"
  by (induction xs) simp_all

lemma map2_same_map: "map2 f xs (map h xs) = map (\<lambda>x. f x (h x)) xs"
  by (induction xs) simp_all

lemma map22_map_same:
  "map2 (map2 f) (map (map g) xs) (map (map h) xs) = map (map (\<lambda>x. f (g x) (h x))) xs"
  by (induction xs) (simp_all add: map2_map_same)

lemma map22_same_map:
  "map2 (map2 f) xs (map (map h) xs) = map (map (\<lambda>x. f x (h x))) xs"
  by (induction xs) (simp_all add: map2_same_map)

lemma bcast_singleton: "bcast f v [k] = map (\<lambda>x. f x k) v"
  by (cases v rule: list.exhaust; simp add: bcast_def split: list.splits)

text \<open>\<open>squash\<close> rescales every capsule vector on its own.\<close>

lemma squash_conv: "squash t = map (map squash_vec) t"
proof -
  let ?l = "\<lambda>v. ssum (map (\<lambda>x. x * x) v)"
  have lensq: "sum_dim2 (pow2 t) = map (map ?l) t"
    by (simp add: sum_dim2_def pow2_def comp_def)
  have q: "map2 (map2 (/)) (map (map ?l) t) (map (map (\<lambda>x. 1 + x)) (map (map ?l) t))
      = map (map (\<lambda>v. ?l v / (1 + ?l v))) t"
    using map22_map_same[of "(/)" ?l t "\<lambda>v. 1 + ?l v"] by (simp add: comp_def)
  have f: "map2 (map2 (/)) (map (map (\<lambda>v. ?l v / (1 + ?l v))) t)
        (map (map ssqrt) (map (map ?l) t))
      = map (map (\<lambda>v. ?l v / (1 + ?l v) / ssqrt (?l v))) t"
    using map22_map_same[of "(/)" "\<lambda>v. ?l v / (1 + ?l v)" t "\<lambda>v. ssqrt (?l v)"]
    by (simp add: comp_def)
  have v: "map2 (map2 (bcast (*))) t
        (view_BN1 (map (map (\<lambda>v. ?l v / (1 + ?l v) / ssqrt (?l v))) t))
      = map (map squash_vec) t"
    using map22_same_map[of "bcast (*)" t "\<lambda>v. [?l v / (1 + ?l v) / ssqrt (?l v)]"]
    by (simp add: view_BN1_def comp_def bcast_singleton squash_vec_def Let_def)
  show ?thesis
    unfolding squash_def Let_def lensq q f v ..
qed

lemma ssum_Fin: "ssum (map Fin xs) = Fin (sum_list xs)"
  by (induction xs) (simp_all add: ssum_def zero_scalar_def)







lemma squash_shape: "has_shape3 B N D t \<Longrightarrow> has_shape3 B N D (squash t)"
  by (simp add: squash_conv has_shape3_def has_shape2_def has_shape1_def list_all_length
      squash_vec_def Let_def)
















text \<open>
  C3. The claim: squash maps a zero capsule vector to a (near-)zero vector without
  producing NaN or Inf, the division by the vector length being guarded. The code has
  no guard: for the zero vector \<open>lensq\<close> and \<open>length\<close> are 0, the factor is
  \<open>0 / (1 + 0) / 0\<close>, and every component of the result is NaN. The theorem evaluates
  \<open>squash\<close> on the tensor of shape \<open>[1, 1, 2]\<close> holding one zero vector.
\<close>

theorem squash_zero_vector_is_nan:
  "squash [[[Fin 0, Fin 0]]] = [[[NaN, NaN]]]"
  by (simp add: squash_def pow2_def sum_dim2_def view_BN1_def ssum_def bcast_def
      zero_scalar_def one_scalar_def)








section \<open>Properties of dynamic routing\<close>

lemma has_shape2_iff:
  "has_shape2 N D m \<longleftrightarrow> length m = N \<and> (\<forall>i < N. length (m ! i) = D)"
  by (auto simp: has_shape2_def has_shape1_def list_all_length)

lemma has_shape3_iff:
  "has_shape3 B N D t \<longleftrightarrow>
     length t = B \<and> (\<forall>n < B. length (t ! n) = N \<and> (\<forall>i < N. length (t ! n ! i) = D))"
  by (auto simp: has_shape3_def has_shape2_iff list_all_length)

lemma has_shape4_iff:
  "has_shape4 B I J D t \<longleftrightarrow>
     length t = B \<and> (\<forall>n < B. length (t ! n) = I \<and>
        (\<forall>i < I. length (t ! n ! i) = J \<and> (\<forall>j < J. length (t ! n ! i ! j) = D)))"
  by (auto simp: has_shape4_def has_shape3_iff list_all_length)

lemma t2_eqI:
  assumes "has_shape2 N D x" "has_shape2 N D y"
    and "\<And>i j. i < N \<Longrightarrow> j < D \<Longrightarrow> x ! i ! j = y ! i ! j"
  shows "x = y"
  using assms by (auto simp: has_shape2_iff intro!: nth_equalityI)

lemma t3_eqI:
  assumes "has_shape3 B N D x" "has_shape3 B N D y"
    and "\<And>n i j. n < B \<Longrightarrow> i < N \<Longrightarrow> j < D \<Longrightarrow> x ! n ! i ! j = y ! n ! i ! j"
  shows "x = y"
  using assms by (auto simp: has_shape3_iff intro!: nth_equalityI)

lemma bcast_same_len: "length xs = length ys \<Longrightarrow> bcast f xs ys = map2 f xs ys"
  by (simp add: bcast_def)

lemma bcast_single_left: "bcast f [x] ys = map (f x) ys"
  by (cases ys rule: list.exhaust; simp add: bcast_def split: list.splits)

lemma ssum_nth: "ssum xs = (\<Sum>d\<leftarrow>[0..<length xs]. xs ! d)"
  by (simp add: ssum_def map_nth)

lemma foldr_add_mats:
  assumes "\<forall>m \<in> set ms. has_shape2 J D m"
  shows "foldr (map2 (map2 (+))) ms (zeros2 J D) =
         map (\<lambda>j. map (\<lambda>d. \<Sum>m\<leftarrow>ms. m ! j ! d) [0..<D]) [0..<J]"
  using assms
proof (induction ms)
  case Nil
  show ?case
    by (auto simp: zeros2_def intro!: nth_equalityI)
next
  case (Cons m ms)
  then have m: "has_shape2 J D m" and IH: "foldr (map2 (map2 (+))) ms (zeros2 J D) =
         map (\<lambda>j. map (\<lambda>d. \<Sum>m\<leftarrow>ms. m ! j ! d) [0..<D]) [0..<J]"
    by simp_all
  show ?case
    using m by (auto simp: IH has_shape2_iff intro!: nth_equalityI)
qed



lemma sum_list_nth_conv: "(\<Sum>m\<leftarrow>ms. f m) = (\<Sum>i\<leftarrow>[0..<length ms]. f (ms ! i))"
proof -
  have "map f ms = map (\<lambda>i. f (ms ! i)) [0..<length ms]"
    by (rule nth_equalityI) simp_all
  then show ?thesis by simp
qed

lemma sum_list_upt_cong:
  "(\<And>i. i < n \<Longrightarrow> f i = g i) \<Longrightarrow> (\<Sum>i\<leftarrow>[0..<n]. f i) = (\<Sum>i\<leftarrow>[0..<n]. (g i :: scalar))"
  by (rule arg_cong[where f = sum_list]) simp

lemma singleton_nth: "length xs = Suc 0 \<Longrightarrow> xs = [xs ! 0]"
  by (cases xs) simp_all

lemma bcast_mul_left1:
  "length cs = Suc 0 \<Longrightarrow> bcast (*) cs vec = map ((*) (cs ! 0)) (vec :: t1)"
  using bcast_single_left[of "(*)" "cs ! 0" vec] singleton_nth[of cs] by simp

lemma mul3_shape:
  assumes "has_shape3 I J 1 cu" "has_shape3 I J D ub"
  shows "has_shape3 I J D (mul3 cu ub)"
  using assms
  by (simp add: has_shape3_iff mul3_def bcast_same_len bcast_mul_left1)

lemma mul3_nth:
  assumes "has_shape3 I J 1 cu" "has_shape3 I J D ub" "i < I" "j < J" "d < D"
  shows "mul3 cu ub ! i ! j ! d = cu ! i ! j ! 0 * ub ! i ! j ! d"
  using assms
  by (simp add: has_shape3_iff mul3_def bcast_same_len bcast_mul_left1)

lemma weighted_sum_item:
  assumes cu: "has_shape3 I J 1 cu" and ub: "has_shape3 I J D ub"
  shows "foldr (map2 (map2 (+))) (mul3 cu ub) (zeros2 J D) =
         map (\<lambda>j. map (\<lambda>d. \<Sum>i\<leftarrow>[0..<I]. cu ! i ! j ! 0 * ub ! i ! j ! d) [0..<D]) [0..<J]"
proof -
  have sh: "has_shape3 I J D (mul3 cu ub)" by (rule mul3_shape[OF cu ub])
  then have all: "\<forall>m \<in> set (mul3 cu ub). has_shape2 J D m" and len: "length (mul3 cu ub) = I"
    by (simp_all add: has_shape3_def list_all_iff)
  have "(\<Sum>m\<leftarrow>mul3 cu ub. m ! j ! d) = (\<Sum>i\<leftarrow>[0..<I]. cu ! i ! j ! 0 * ub ! i ! j ! d)"
    if "j < J" "d < D" for j d
    unfolding sum_list_nth_conv[of "\<lambda>m. m ! j ! d" "mul3 cu ub"] len
    by (rule sum_list_upt_cong) (simp add: mul3_nth[OF cu ub _ that])
  then show ?thesis
    unfolding foldr_add_mats[OF all] by simp
qed



lemma has_shape4_item:
  "has_shape4 B I J D U \<Longrightarrow> n < B \<Longrightarrow> has_shape3 I J D (U ! n)"
  by (simp add: has_shape4_def list_all_length)

lemma weighted_sum_coupling:
  assumes c: "has_shape4 B I J 1 c" and U: "has_shape4 B I J D U"
  shows "sum_dim1 J D (mul4 c U) =
         spec_weighted_sum (B, I, J, D) (\<lambda>n i j. c ! n ! i ! j ! 0) U"
proof -
  have len: "length c = B" "length U = B"
    using c U by (simp_all add: has_shape4_def)
  show ?thesis
    unfolding sum_dim1_def mul4_def spec_weighted_sum_def
    by (rule nth_equalityI)
      (simp_all add: len bcast_same_len
        weighted_sum_item[OF has_shape4_item[OF c] has_shape4_item[OF U]])
qed

lemma weighted_sum_initial:
  assumes c: "has_shape2 I J c" and U: "has_shape4 B I J D U"
  shows "sum_dim1 J D (mul4 [unsqueeze2 c] U) =
         spec_weighted_sum (B, I, J, D) (\<lambda>n i j. c ! i ! j) U"
proof -
  have cu: "has_shape3 I J 1 (unsqueeze2 c)"
    using c by (simp add: has_shape3_iff has_shape2_iff unsqueeze2_def)
  have nth: "unsqueeze2 c ! i ! j ! 0 = c ! i ! j" if "i < I" "j < J" for i j
    using c that by (simp add: has_shape2_iff unsqueeze2_def)
  have len: "length U = B"
    using U by (simp add: has_shape4_def)
  have item: "foldr (map2 (map2 (+))) (mul3 (unsqueeze2 c) (U ! n)) (zeros2 J D) =
         map (\<lambda>j. map (\<lambda>d. \<Sum>i\<leftarrow>[0..<I]. c ! i ! j * U ! n ! i ! j ! d) [0..<D]) [0..<J]"
    if "n < B" for n
    unfolding weighted_sum_item[OF cu has_shape4_item[OF U that]]
    by (auto intro!: sum_list_upt_cong simp: nth)
  show ?thesis
    unfolding sum_dim1_def mul4_def spec_weighted_sum_def bcast_single_left
    by (rule nth_equalityI) (simp_all add: len item)
qed

lemma has_shape3_item:
  "has_shape3 B I J L \<Longrightarrow> n < B \<Longrightarrow> has_shape2 I J (L ! n)"
  by (simp add: has_shape3_def list_all_length)

lemma ssum_map2_mul:
  assumes "length x = D" "length y = D"
  shows "ssum (map2 (*) x y) = (\<Sum>d\<leftarrow>[0..<D]. x ! d * y ! d)"
  unfolding ssum_nth using assms
  by (auto intro!: sum_list_upt_cong)

lemma agree_item:
  assumes ub: "has_shape3 I J D ub" and vb: "has_shape2 J D vb"
  shows "map (map ssum) (mul3 ub [vb]) =
         map (\<lambda>i. map (\<lambda>j. \<Sum>d\<leftarrow>[0..<D]. ub ! i ! j ! d * vb ! j ! d) [0..<J]) [0..<I]"
proof (rule t2_eqI[where N = I and D = J])
  show "has_shape2 I J (map (map ssum) (mul3 ub [vb]))"
    using ub vb
    by (simp add: mul3_def bcast_singleton has_shape2_iff has_shape3_iff bcast_same_len)
  show "has_shape2 I J
     (map (\<lambda>i. map (\<lambda>j. \<Sum>d\<leftarrow>[0..<D]. ub ! i ! j ! d * vb ! j ! d) [0..<J]) [0..<I])"
    by (simp add: has_shape2_iff)
  fix i j assume ij: "i < I" "j < J"
  then have "length (ub ! i ! j) = D" "length (vb ! j) = D"
    using ub vb by (simp_all add: has_shape3_iff has_shape2_iff)
  then show "map (map ssum) (mul3 ub [vb]) ! i ! j =
     map (\<lambda>i. map (\<lambda>j. \<Sum>d\<leftarrow>[0..<D]. ub ! i ! j ! d * vb ! j ! d) [0..<J]) [0..<I] ! i ! j"
    using ub vb ij
    by (simp add: mul3_def bcast_singleton has_shape2_iff has_shape3_iff bcast_same_len
        ssum_map2_mul)
qed

lemma agreement_eq:
  assumes U: "has_shape4 B I J D U" and L: "has_shape3 B I J L" and V: "has_shape3 B J D V"
  shows "add3 L (sum_last (mul4 U (unsqueeze1 V))) = spec_agreement (B, I, J, D) L U V"
proof -
  have lenV: "length V = B" using V by (simp add: has_shape3_def)
  have lenU: "length U = B" using U by (simp add: has_shape4_def)
  have lenL: "length L = B" using L by (simp add: has_shape3_def)
  have ag: "sum_last (mul4 U (unsqueeze1 V)) =
      map (\<lambda>n. map (\<lambda>i. map (\<lambda>j. \<Sum>d\<leftarrow>[0..<D]. U ! n ! i ! j ! d * V ! n ! j ! d)
         [0..<J]) [0..<I]) [0..<B]"
    unfolding sum_last_def mul4_def unsqueeze1_def
    by (rule nth_equalityI)
      (simp_all add: lenU lenV bcast_same_len
        agree_item[OF has_shape4_item[OF U] has_shape3_item[OF V]])
  show ?thesis
    unfolding ag
  proof (rule t3_eqI[where B = B and N = I and D = J])
    show "has_shape3 B I J (spec_agreement (B, I, J, D) L U V)"
      by (simp add: spec_agreement_def has_shape3_iff)
    show "has_shape3 B I J (add3 L (map (\<lambda>n. map (\<lambda>i. map (\<lambda>j.
        \<Sum>d\<leftarrow>[0..<D]. U ! n ! i ! j ! d * V ! n ! j ! d) [0..<J]) [0..<I]) [0..<B]))"
      using L by (simp add: add3_def add2_def bcast_same_len has_shape3_iff)
    fix n i j assume "n < B" "i < I" "j < J"
    then show "add3 L (map (\<lambda>n. map (\<lambda>i. map (\<lambda>j.
        \<Sum>d\<leftarrow>[0..<D]. U ! n ! i ! j ! d * V ! n ! j ! d) [0..<J]) [0..<I]) [0..<B]) ! n ! i ! j
        = spec_agreement (B, I, J, D) L U V ! n ! i ! j"
      using L
      by (simp add: add3_def add2_def bcast_same_len has_shape3_iff spec_agreement_def)
  qed
qed

lemma chunks_concat:
  "length X = B \<Longrightarrow> \<forall>x \<in> set X. length x = I \<Longrightarrow> chunks B I (concat X) = X"
  by (induction X arbitrary: B) auto

lemma view_rows_ok:
  "0 < J \<Longrightarrow> view_rows B I J L = Inr (concat L)"
  by (simp add: view_rows_def)

lemma view_coupling_ok:
  assumes "has_shape3 B I J L" "0 < I" "0 < J"
  shows "view_coupling (B * I) I J (softmax_dim1 (concat L)) =
         Inr (map (map (map (\<lambda>e. [e]))) (map (map softmax_vec) L))"
proof -
  have "softmax_dim1 (concat L) = concat (map (map softmax_vec) L)"
    by (simp add: softmax_dim1_def map_concat)
  moreover have "chunks B I (concat (map (map softmax_vec) L)) = map (map softmax_vec) L"
    using assms(1) by (intro chunks_concat) (auto simp: has_shape3_def has_shape2_def list_all_iff)
  moreover have "(B * I * J) div (I * J) = B"
    using assms(2,3) by (simp add: mult.assoc)
  ultimately show ?thesis
    using assms(2,3) by (simp add: view_coupling_def)
qed



lemma spec_weighted_sum_cong:
  assumes "\<And>n i j. n < B \<Longrightarrow> i < I \<Longrightarrow> j < J \<Longrightarrow> c n i j = c' n i j"
  shows "spec_weighted_sum (B, I, J, D) c U = spec_weighted_sum (B, I, J, D) c' U"
  unfolding spec_weighted_sum_def
  by (auto intro!: sum_list_upt_cong simp: assms)

lemma spec_weighted_sum_shape: "has_shape3 B J D (spec_weighted_sum (B, I, J, D) c U)"
  by (simp add: spec_weighted_sum_def has_shape3_iff)

lemma spec_agreement_shape: "has_shape3 B I J (spec_agreement (B, I, J, D) L U V)"
  by (simp add: spec_agreement_def has_shape3_iff)

lemma length_softmax_vec: "length (softmax_vec l) = length l"
  by (simp add: softmax_vec_def)

lemma softmax_vec_nth:
  assumes "length l = J" "j < J"
  shows "softmax_vec l ! j = spec_softmax J l j"
proof -
  have "ssum (map sexp l) = (\<Sum>k\<leftarrow>[0..<J]. sexp (l ! k))"
    unfolding ssum_nth using assms(1) by (auto intro!: sum_list_upt_cong)
  then show ?thesis
    using assms by (simp add: softmax_vec_def spec_softmax_def)
qed

lemma routing_round_eq:
  assumes sz: "size4 u = (B, I, J, D)" and U: "has_shape4 B I J D (elems4 u)"
    and L: "has_shape3 B I J L" and V: "has_shape3 B J D V" and pos: "0 < I" "0 < J"
  shows "routing_round u (self, L, V) = Inr (self, spec_round (B, I, J, D) (elems4 u) (L, V))"
proof -
  let ?L = "spec_agreement (B, I, J, D) L (elems4 u) V"
  let ?c = "map (map (map (\<lambda>e. [e]))) (map (map softmax_vec) ?L)"
  have L': "has_shape3 B I J ?L" by (rule spec_agreement_shape)
  have c: "has_shape4 B I J 1 ?c"
    using L' by (simp add: has_shape4_iff has_shape3_iff length_softmax_vec)
  have cn: "?c ! n ! i ! j ! 0 = spec_softmax J (?L ! n ! i) j"
    if "n < B" "i < I" "j < J" for n i j
    using L' that by (simp add: has_shape3_iff softmax_vec_nth length_softmax_vec)
  have ws: "sum_dim1 J D (mul4 ?c (elems4 u)) =
      spec_weighted_sum (B, I, J, D) (\<lambda>n i j. spec_softmax J (?L ! n ! i) j) (elems4 u)"
    unfolding weighted_sum_coupling[OF c U]
    by (rule spec_weighted_sum_cong) (rule cn)
  show ?thesis
    by (simp add: routing_round_def round_logits_def round_coupling_def sz
        agreement_eq[OF U L V] view_rows_ok[OF pos(2)]
        view_coupling_ok[OF L' pos] ws spec_round_def Let_def del: map_map)
qed

lemma spec_round_shape:
  assumes "spec_round (B, I, J, D) U (L, V) = (L', V')"
  shows "has_shape3 B I J L' \<and> has_shape3 B J D V'"
  using assms
  by (auto simp: spec_round_def Let_def spec_agreement_shape
      intro!: squash_shape spec_weighted_sum_shape)

lemma routing_loop_eq:
  assumes sz: "size4 u = (B, I, J, D)" and U: "has_shape4 B I J D (elems4 u)"
    and pos: "0 < I" "0 < J"
  shows "has_shape3 B I J L \<Longrightarrow> has_shape3 B J D V \<Longrightarrow>
         routing_loop u rs (self, L, V) =
         Inr (self, (spec_round (B, I, J, D) (elems4 u) ^^ length rs) (L, V))"
proof (induction rs arbitrary: L V)
  case Nil
  show ?case by simp
next
  case (Cons r rs)
  obtain L' V' where st: "spec_round (B, I, J, D) (elems4 u) (L, V) = (L', V')"
    by (cases "spec_round (B, I, J, D) (elems4 u) (L, V)")
  have sh: "has_shape3 B I J L'" "has_shape3 B J D V'"
    using spec_round_shape[OF st] by simp_all
  show ?case
    by (simp add: routing_round_eq[OF sz U Cons.prems pos] st Cons.IH[OF sh]
        funpow_swap1)
qed

lemma spec_rounds_shape:
  assumes "has_shape3 B I J L" "has_shape3 B J D V"
  shows "has_shape3 B I J (fst ((spec_round (B, I, J, D) U ^^ k) (L, V))) \<and>
         has_shape3 B J D (snd ((spec_round (B, I, J, D) U ^^ k) (L, V)))"
proof (induction k)
  case 0
  show ?case using assms by simp
next
  case (Suc k)
  obtain L' V' where st: "(spec_round (B, I, J, D) U ^^ k) (L, V) = (L', V')"
    by (cases "(spec_round (B, I, J, D) U ^^ k) (L, V)")
  obtain L2 V2 where st2: "spec_round (B, I, J, D) U (L', V') = (L2, V2)"
    by (cases "spec_round (B, I, J, D) U (L', V')")
  show ?case
    using spec_round_shape[OF st2] by (simp add: st st2)
qed

lemma expand_same:
  assumes "has_shape2 I J x"
  shows "expand B I J x = replicate B x"
proof -
  have "map (expand_axis J) x = x"
    using assms by (intro map_idI) (auto simp: has_shape2_def has_shape1_def list_all_iff expand_axis_def)
  then show ?thesis
    using assms by (simp add: expand_def expand_axis_def has_shape2_def)
qed

lemma initial_eq:
  assumes bb: "has_shape2 I J bb" and U: "has_shape4 B I J D U"
  shows "(replicate B bb, squash (sum_dim1 J D (mul4 [unsqueeze2 (softmax_dim1 bb)] U)))
         = spec_initial (B, I, J, D) bb U"
proof -
  have c: "has_shape2 I J (softmax_dim1 bb)"
    using bb by (simp add: has_shape2_iff softmax_dim1_def softmax_vec_def)
  have "spec_weighted_sum (B, I, J, D) (\<lambda>n i j. softmax_dim1 bb ! i ! j) U =
        spec_weighted_sum (B, I, J, D) (\<lambda>n i j. spec_softmax J (bb ! i) j) U"
    using bb by (intro spec_weighted_sum_cong) (simp add: softmax_dim1_def has_shape2_iff softmax_vec_nth)
  then show ?thesis
    by (simp add: weighted_sum_initial[OF c U] spec_initial_def Let_def)
qed

lemma spec_initial_shape:
  assumes "has_shape2 I J bb"
  shows "has_shape3 B I J (fst (spec_initial (B, I, J, D) bb U)) \<and>
         has_shape3 B J D (snd (spec_initial (B, I, J, D) bb U))"
proof
  show "has_shape3 B I J (fst (spec_initial (B, I, J, D) bb U))"
    using assms by (simp add: spec_initial_def Let_def has_shape3_def list_all_length)
  show "has_shape3 B J D (snd (spec_initial (B, I, J, D) bb U))"
    by (simp add: spec_initial_def Let_def squash_shape spec_weighted_sum_shape)
qed

lemma bdim_same: "bdim m m = m"
  by (simp add: bdim_def)

lemma forward_spec:
  assumes sz: "size4 u = (B, I, J, D)" and wfu: "wf_tensor4 u"
    and bs: "b_size self = (I, J)" and wfm: "wf_DynamicRouting self"
    and pos: "0 < n_iterations self \<longrightarrow> 0 < I \<and> 0 < J"
  shows "forward self u =
           (Inr (spec_routing (b self) (nat (n_iterations self)) u), self)"
proof -
  have U: "has_shape4 B I J D (elems4 u)"
    using wfu sz by (simp add: wf_tensor4_def)
  have bb: "has_shape2 I J (b self)"
    using wfm bs by (simp add: wf_DynamicRouting_def)
  note init = initial_eq[OF bb U]
  obtain L0 V0 where st0: "spec_initial (B, I, J, D) (b self) (elems4 u) = (L0, V0)"
    by (cases "spec_initial (B, I, J, D) (b self) (elems4 u)")
  have sh0: "has_shape3 B I J L0" "has_shape3 B J D V0"
    using spec_initial_shape[OF bb, of B D "elems4 u"] by (simp_all add: st0)
  have L0: "L0 = replicate B (b self)"
    and V0: "V0 = squash (sum_dim1 J D (mul4 [unsqueeze2 (softmax_dim1 (b self))] (elems4 u)))"
    using init st0 by simp_all
  show ?thesis
  proof (cases "0 < n_iterations self")
    case False
    then have "nat (n_iterations self) = 0" by simp
    then show ?thesis
      using False
      by (simp add: forward_def sz bs bc_ok_def bdim_same Let_def spec_routing_def st0 V0)
  next
    case True
    then have p: "0 < I" "0 < J" using pos by simp_all
    obtain Lk Vk where stk: "(spec_round (B, I, J, D) (elems4 u) ^^ nat (n_iterations self)) (L0, V0) = (Lk, Vk)"
      by (cases "(spec_round (B, I, J, D) (elems4 u) ^^ nat (n_iterations self)) (L0, V0)")
    have loop: "routing_loop u [0..<nat (n_iterations self)] (self, L0, V0) = Inr (self, Lk, Vk)"
      using routing_loop_eq[OF sz U p sh0, of "[0..<nat (n_iterations self)]" self]
      by (simp add: stk)
    show ?thesis
      using True loop[unfolded L0 V0]
      by (simp add: forward_def sz bs bc_ok_def bdim_same Let_def expand_ok_def
          expand_same[OF bb] spec_routing_def st0 stk[unfolded L0 V0] L0 V0)
  qed
qed

lemma routing_trace_eq:
  assumes sz: "size4 u = (B, I, J, D)" and U: "has_shape4 B I J D (elems4 u)"
    and pos: "0 < I" "0 < J"
  shows "has_shape3 B I J L \<Longrightarrow> has_shape3 B J D V \<Longrightarrow>
         routing_trace u rs (self, L, V) =
         map (\<lambda>k. (self, (spec_round (B, I, J, D) (elems4 u) ^^ Suc k) (L, V))) [0..<length rs]"
proof (induction rs arbitrary: L V)
  case Nil
  show ?case by simp
next
  case (Cons r rs)
  obtain L' V' where st: "spec_round (B, I, J, D) (elems4 u) (L, V) = (L', V')"
    by (cases "spec_round (B, I, J, D) (elems4 u) (L, V)")
  have sh: "has_shape3 B I J L'" "has_shape3 B J D V'"
    using spec_round_shape[OF st] by simp_all
  have "[0..<Suc (length rs)] = 0 # map Suc [0..<length rs]"
    by (simp add: upt_conv_Cons map_Suc_upt del: upt_Suc)
  then show ?case
    by (simp add: routing_round_eq[OF sz U Cons.prems pos] st Cons.IH[OF sh]
        funpow_swap1 comp_def del: upt_Suc)
qed

lemma routing_round_module:
  "routing_round u (self, L, V) = Inr (self', L', V') \<Longrightarrow> self' = self"
  by (auto simp: routing_round_def Let_def split: prod.splits sum.splits)

lemma routing_loop_module:
  "routing_loop u rs (self, L, V) = Inr (self', L', V') \<Longrightarrow> self' = self"
proof (induction rs arbitrary: L V)
  case Nil
  then show ?case by simp
next
  case (Cons r rs)
  then show ?case
    by (auto split: sum.splits dest: routing_round_module)
qed

lemma forward_module: "snd (forward self u) = self"
  by (auto simp: forward_def Let_def split: prod.splits sum.splits dest: routing_loop_module)

lemma initial_frame_eq:
  assumes sz: "size4 u = (B, I, J, D)" and wfu: "wf_tensor4 u"
    and bs: "b_size self = (I, J)" and wfm: "wf_DynamicRouting self"
  shows "initial_frame self u = (self, spec_initial (B, I, J, D) (b self) (elems4 u))"
proof -
  have U: "has_shape4 B I J D (elems4 u)"
    using wfu sz by (simp add: wf_tensor4_def)
  have bb: "has_shape2 I J (b self)"
    using wfm bs by (simp add: wf_DynamicRouting_def)
  show ?thesis
    using initial_eq[OF bb U]
    by (simp add: initial_frame_def sz bs bdim_same expand_same[OF bb])
qed

lemma sum_list_Fin: "sum_list (map Fin xs) = Fin (sum_list xs)"
  using ssum_Fin by (simp add: ssum_def)

lemma finite_vec_conv: "finite_vec l \<longleftrightarrow> (\<exists>r. l = map Fin r)"
proof
  assume "finite_vec l"
  then have "l = map Fin (map the_Fin l)"
    by (auto simp: finite_vec_def list_all_iff intro!: nth_equalityI)
  then show "\<exists>r. l = map Fin r" ..
next
  assume "\<exists>r. l = map Fin r"
  then show "finite_vec l"
    by (auto simp: finite_vec_def list_all_iff)
qed

lemma softmax_vec_distribution:
  assumes fin: "finite_vec l" and ne: "l \<noteq> []"
  shows "is_distribution (softmax_vec l)"
proof -
  obtain r where l: "l = map Fin r" using fin finite_vec_conv by blast
  let ?S = "sum_list (map exp r)"
  have "r \<noteq> []" using ne l by simp
  then have S: "0 < ?S"
    by (induction r rule: list_nonempty_induct) (simp_all add: add_pos_pos)
  have e: "ssum (map sexp l) = Fin ?S"
    using ssum_Fin[of "map exp r"] by (simp add: l comp_def)
  have sm: "softmax_vec l = map (\<lambda>x. Fin (exp x / ?S)) r"
    using S by (simp add: softmax_vec_def e) (simp add: l comp_def)
  have "sum_list (map (\<lambda>x. exp x / ?S) r) = ?S / ?S"
    using sum_list_mult_const[of exp "inverse ?S" r] by (simp add: divide_inverse)
  then have one: "sum_list (map (\<lambda>x. exp x / ?S) r) = 1"
    using S by simp
  have "ssum (softmax_vec l) = Fin 1"
    using ssum_Fin[of "map (\<lambda>x. exp x / ?S) r"] by (simp add: sm comp_def one)
  moreover have "finite_vec (softmax_vec l)"
    by (simp add: sm finite_vec_def list_all_iff)
  moreover have "list_all (\<lambda>e. 0 \<le> the_Fin e) (softmax_vec l)"
    using S by (simp add: sm list_all_iff)
  ultimately show ?thesis by (simp add: is_distribution_def)
qed

lemma round_coupling_ok:
  assumes sz: "size4 u = (B, I, J, D)" and L: "has_shape3 B I J L" and pos: "0 < I" "0 < J"
  shows "round_coupling u L = Inr (map (map (map (\<lambda>e. [e]))) (map (map softmax_vec) L))"
  by (simp add: round_coupling_def sz view_rows_ok[OF pos(2)] view_coupling_ok[OF L pos])

lemma concat_singletons: "concat (map (\<lambda>e. [e]) xs) = xs"
  by (induction xs) simp_all

lemma spec_routing_shape:
  assumes "size4 u = (B, I, J, D)" and "has_shape2 I J bb"
  shows "has_shape3 B J D (spec_routing bb k u)"
proof -
  obtain L0 V0 where st0: "spec_initial (B, I, J, D) bb (elems4 u) = (L0, V0)"
    by (cases "spec_initial (B, I, J, D) bb (elems4 u)")
  have sh: "has_shape3 B I J L0" "has_shape3 B J D V0"
    using spec_initial_shape[OF assms(2), of B D "elems4 u"] by (simp_all add: st0)
  show ?thesis
    using spec_rounds_shape[OF sh, where U = "elems4 u" and k = k]
    by (simp add: spec_routing_def assms(1) st0)
qed

text \<open>
  C1. For every votes tensor \<open>u_hat\<close> of shape \<open>[B, I, J, D]\<close> with non-empty capsule axes,
  a module whose \<open>b\<close> has shape \<open>[I, J]\<close> and \<open>n_iterations > 0\<close>, \<open>forward\<close> returns what
  the routing of the specification computes: the initial coupling is the softmax of \<open>b\<close>
  along the output-capsule axis, \<open>s\<^sub>j = \<Sum>\<^sub>i c\<^sub>i\<^sub>j \<cdot> u_hat\<^sub>i\<^sub>j\<close>, \<open>v = squash s\<close>; then
  \<open>n_iterations\<close> times the agreement is added to the per-batch logits, the coupling is the
  softmax of the updated logits, and the weighted sum and squash give the new \<open>v\<close>. The
  value returned has shape \<open>[B, J, D]\<close>.
\<close>

theorem forward_refines_spec_routing:
  assumes "size4 u_hat = (B, I, J, D)" and "wf_tensor4 u_hat"
    and "b_size self = (I, J)" and "wf_DynamicRouting self"
    and "0 < n_iterations self" and "0 < I" and "0 < J"
  shows "fst (forward self u_hat) =
           Inr (spec_routing (b self) (nat (n_iterations self)) u_hat) \<and>
         has_shape3 B J D (spec_routing (b self) (nat (n_iterations self)) u_hat)"
proof
  show "fst (forward self u_hat) = Inr (spec_routing (b self) (nat (n_iterations self)) u_hat)"
    using forward_spec[OF assms(1-4)] assms(6,7) by simp
  have "has_shape2 I J (b self)"
    using assms(3,4) by (simp add: wf_DynamicRouting_def)
  then show "has_shape3 B J D (spec_routing (b self) (nat (n_iterations self)) u_hat)"
    by (rule spec_routing_shape[OF assms(1)])
qed

lemmas shape_defs = has_shape4_def has_shape3_def has_shape2_def has_shape1_def

theorem forward_refines_spec_routing_witness:
  "fst (forward (DynamicRouting_init 1 1 1) \<lparr>size4 = (1, 1, 1, 1), elems4 = [[[[Fin 1]]]]\<rparr>) =
     Inr (spec_routing (b (DynamicRouting_init 1 1 1)) (nat 1)
            \<lparr>size4 = (1, 1, 1, 1), elems4 = [[[[Fin 1]]]]\<rparr>) \<and>
   spec_routing (b (DynamicRouting_init 1 1 1)) (nat 1)
            \<lparr>size4 = (1, 1, 1, 1), elems4 = [[[[Fin 1]]]]\<rparr> = [[[Fin (1 / 2)]]]"
proof -
  let ?u = "\<lparr>size4 = (1, 1, 1, 1), elems4 = [[[[Fin 1]]]]\<rparr>"
  let ?m = "DynamicRouting_init 1 1 1"
  have "fst (forward ?m ?u) = Inr (spec_routing (b ?m) (nat (n_iterations ?m)) ?u)"
    using forward_refines_spec_routing[of ?u 1 1 1 1 ?m]
    by (simp add: wf_tensor4_def wf_DynamicRouting_def DynamicRouting_init_def shape_defs)
  moreover have "spec_routing (b ?m) (nat 1) ?u = [[[Fin (1 / 2)]]]"
    by (simp add: spec_routing_def spec_round_def spec_initial_def spec_weighted_sum_def
        spec_agreement_def spec_softmax_def DynamicRouting_init_def squash_conv squash_vec_def
        ssum_def zero_scalar_def one_scalar_def Let_def)
  ultimately show ?thesis by (simp add: DynamicRouting_init_def)
qed

lemma routing_trace_spec:
  assumes sz: "size4 u = (B, I, J, D)" and wfu: "wf_tensor4 u"
    and bs: "b_size self = (I, J)" and wfm: "wf_DynamicRouting self"
    and pos: "0 < I" "0 < J"
  shows "routing_trace u rs (initial_frame self u) =
         map (\<lambda>k. (self, (spec_round (B, I, J, D) (elems4 u) ^^ Suc k)
                            (spec_initial (B, I, J, D) (b self) (elems4 u))))
           [0..<length rs]"
proof -
  have U: "has_shape4 B I J D (elems4 u)"
    using wfu sz by (simp add: wf_tensor4_def)
  have bb: "has_shape2 I J (b self)"
    using wfm bs by (simp add: wf_DynamicRouting_def)
  obtain L0 V0 where st0: "spec_initial (B, I, J, D) (b self) (elems4 u) = (L0, V0)"
    by (cases "spec_initial (B, I, J, D) (b self) (elems4 u)")
  have sh: "has_shape3 B I J L0" "has_shape3 B J D V0"
    using spec_initial_shape[OF bb, of B D "elems4 u"] by (simp_all add: st0)
  show ?thesis
    unfolding initial_frame_eq[OF sz wfu bs wfm] st0
    by (rule routing_trace_eq[OF sz U pos sh])
qed

lemma last_cons_map_upt:
  "last (x # map f [0..<N]) = (if N = 0 then x else f (N - 1))"
  by (cases N) simp_all

text \<open>
  Softmax normalises: the coupling computed from a finite row of logits is a probability
  distribution, for the initial coupling and in every pass of the loop. The logits of a
  pass need not be finite, though (see C2 below).
\<close>

lemma coupling_distribution_on_finite_logits:
  assumes "size4 u_hat = (B, I, J, D)" and "wf_tensor4 u_hat"
    and "b_size self = (I, J)" and "wf_DynamicRouting self"
    and "0 < I" and "0 < J"
  shows "(\<forall>i < I. finite_vec (b self ! i) \<longrightarrow> is_distribution (softmax_dim1 (b self) ! i)) \<and>
         length (routing_trace u_hat [0..<nat (n_iterations self)] (initial_frame self u_hat))
           = nat (n_iterations self) \<and>
         (\<forall>k < nat (n_iterations self). \<forall>n < B. \<forall>i < I.
            (case routing_trace u_hat [0..<nat (n_iterations self)]
                    (initial_frame self u_hat) ! k of
               (m, logits, v) \<Rightarrow>
                 finite_vec (logits ! n ! i) \<longrightarrow>
                 (\<exists>c. round_coupling u_hat logits = Inr c \<and>
                      is_distribution (concat (c ! n ! i)))))"
proof (intro conjI allI impI)
  have bb: "has_shape2 I J (b self)"
    using assms(3,4) by (simp add: wf_DynamicRouting_def)
  note tr = routing_trace_spec[OF assms, of "[0..<nat (n_iterations self)]"]
  show "length (routing_trace u_hat [0..<nat (n_iterations self)] (initial_frame self u_hat))
           = nat (n_iterations self)"
    by (simp add: tr)
  {
    fix i assume i: "i < I" and fin: "finite_vec (b self ! i)"
    have "b self ! i \<noteq> []"
      using bb i assms(6) by (auto simp: has_shape2_iff)
    then show "is_distribution (softmax_dim1 (b self) ! i)"
      using bb i softmax_vec_distribution[OF fin]
      by (simp add: softmax_dim1_def has_shape2_iff)
  }
  fix k n i
  assume k: "k < nat (n_iterations self)" and n: "n < B" and i: "i < I"
  obtain L V where st: "(spec_round (B, I, J, D) (elems4 u_hat) ^^ Suc k)
      (spec_initial (B, I, J, D) (b self) (elems4 u_hat)) = (L, V)"
    by (cases "(spec_round (B, I, J, D) (elems4 u_hat) ^^ Suc k)
      (spec_initial (B, I, J, D) (b self) (elems4 u_hat))")
  obtain L0 V0 where st0: "spec_initial (B, I, J, D) (b self) (elems4 u_hat) = (L0, V0)"
    by (cases "spec_initial (B, I, J, D) (b self) (elems4 u_hat)")
  have sh0: "has_shape3 B I J L0" "has_shape3 B J D V0"
    using spec_initial_shape[OF bb, of B D "elems4 u_hat"] by (simp_all add: st0)
  have L: "has_shape3 B I J L"
    using spec_rounds_shape[OF sh0, where U = "elems4 u_hat" and k = "Suc k"] st st0
    by simp
  have fr: "routing_trace u_hat [0..<nat (n_iterations self)] (initial_frame self u_hat) ! k
      = (self, L, V)"
    using k by (simp add: tr st del: funpow.simps)
  have rc: "round_coupling u_hat L = Inr (map (map (map (\<lambda>e. [e]))) (map (map softmax_vec) L))"
    by (rule round_coupling_ok[OF assms(1) L assms(5,6)])
  have ne: "L ! n ! i \<noteq> []"
    using L n i assms(6) by (auto simp: has_shape3_iff)
  have cc: "concat (map (map (map (\<lambda>e. [e]))) (map (map softmax_vec) L) ! n ! i)
      = softmax_vec (L ! n ! i)"
    using L n i by (simp add: has_shape3_iff concat_singletons)
  show "case routing_trace u_hat [0..<nat (n_iterations self)] (initial_frame self u_hat) ! k of
          (m, logits, v) \<Rightarrow>
            finite_vec (logits ! n ! i) \<longrightarrow>
            (\<exists>c. round_coupling u_hat logits = Inr c \<and> is_distribution (concat (c ! n ! i)))"
    unfolding fr using softmax_vec_distribution[OF _ ne] rc cc by simp
qed

text \<open>
  C6. On votes of shape \<open>[B, I, J, D]\<close> with non-empty capsule axes, whatever their
  values, the loop body of \<open>forward\<close> is executed exactly \<open>n_iterations\<close> times (no pass
  for a count of 0 or less), and the value returned is the \<open>v\<close> of the last frame. With
  \<open>n_iterations = 0\<close> the value returned is the squash of the softmax(b)-weighted sum of the
  votes.
\<close>

theorem routing_runs_exactly_n_iterations:
  assumes "size4 u_hat = (B, I, J, D)" and "wf_tensor4 u_hat"
    and "b_size self = (I, J)" and "wf_DynamicRouting self"
    and "0 < I" and "0 < J"
  shows "length (routing_trace u_hat [0..<nat (n_iterations self)] (initial_frame self u_hat))
           = nat (n_iterations self) \<and>
         fst (forward self u_hat) =
           Inr (snd (snd (last (initial_frame self u_hat #
                  routing_trace u_hat [0..<nat (n_iterations self)]
                    (initial_frame self u_hat))))) \<and>
         (n_iterations self = 0 \<longrightarrow>
            fst (forward self u_hat) =
              Inr (squash (spec_weighted_sum (B, I, J, D)
                     (\<lambda>n i j. spec_softmax J (b self ! i) j) (elems4 u_hat))))"
proof (intro conjI impI)
  note tr = routing_trace_spec[OF assms, of "[0..<nat (n_iterations self)]"]
  note fw = forward_spec[OF assms(1-4)]
  show "length (routing_trace u_hat [0..<nat (n_iterations self)] (initial_frame self u_hat))
           = nat (n_iterations self)"
    by (simp add: tr)
  show "fst (forward self u_hat) =
           Inr (snd (snd (last (initial_frame self u_hat #
                  routing_trace u_hat [0..<nat (n_iterations self)]
                    (initial_frame self u_hat)))))"
  proof -
    let ?N = "nat (n_iterations self)"
    let ?init = "spec_initial (B, I, J, D) (b self) (elems4 u_hat)"
    have "last (initial_frame self u_hat #
              routing_trace u_hat [0..<?N] (initial_frame self u_hat)) =
          (self, (spec_round (B, I, J, D) (elems4 u_hat) ^^ ?N) ?init)"
      unfolding tr last_cons_map_upt
      by (cases ?N) (simp_all add: initial_frame_eq[OF assms(1-4)] del: funpow.simps)
    then show ?thesis
      using fw assms(5,6) by (simp add: spec_routing_def assms(1))
  qed
  assume "n_iterations self = 0"
  then show "fst (forward self u_hat) =
              Inr (squash (spec_weighted_sum (B, I, J, D)
                     (\<lambda>n i j. spec_softmax J (b self ! i) j) (elems4 u_hat)))"
    using fw by (simp add: spec_routing_def assms(1) spec_initial_def Let_def)
qed

text \<open>
  C9. Routing is deterministic: a second call of \<open>forward\<close>, on the module as the first
  call left it and with the same votes, returns the same result as the first call.
\<close>

theorem routing_is_deterministic:
  "fst (forward (snd (forward self u_hat)) u_hat) = fst (forward self u_hat)"
  by (simp add: forward_module)

text \<open>
  C10. \<open>forward\<close> never modifies the module: for any votes and any \<open>n_iterations\<close>,
  also when the call raises, the module after the call is the module before it, and so
  is its parameter \<open>b\<close>.
\<close>

theorem forward_never_modifies_b:
  "snd (forward self u_hat) = self \<and> b (snd (forward self u_hat)) = b self"
  by (simp add: forward_module)

lemmas routing_eval_defs =
  initial_frame_def routing_round_def round_logits_def round_coupling_def
  view_rows_def view_coupling_def softmax_dim1_def softmax_vec_def expand_def expand_axis_def
  mul4_def mul3_def add3_def add2_def bcast_def unsqueeze1_def unsqueeze2_def sum_dim1_def
  sum_last_def zeros2_def bdim_def squash_conv squash_vec_def ssum_def
  zero_scalar_def one_scalar_def DynamicRouting_init_def Let_def

lemma coupling_distribution_on_finite_logits_example:
  "is_distribution (softmax_dim1 (b (DynamicRouting_init 1 2 1)) ! 0) \<and>
   fst (snd (routing_trace \<lparr>size4 = (1, 1, 2, 1), elems4 = [[[[Fin 2], [Fin 2]]]]\<rparr>
               [0..<nat 1]
               (initial_frame (DynamicRouting_init 1 2 1)
                  \<lparr>size4 = (1, 1, 2, 1), elems4 = [[[[Fin 2], [Fin 2]]]]\<rparr>) ! 0))
     = [[[Fin 1, Fin 1]]] \<and>
   (\<exists>c. round_coupling \<lparr>size4 = (1, 1, 2, 1), elems4 = [[[[Fin 2], [Fin 2]]]]\<rparr>
           [[[Fin 1, Fin 1]]] = Inr c \<and>
        is_distribution (concat (c ! 0 ! 0)))"
proof -
  let ?u = "\<lparr>size4 = (1, 1, 2, 1), elems4 = [[[[Fin 2], [Fin 2]]]]\<rparr>"
  let ?m = "DynamicRouting_init 1 2 1"
  have hyps: "size4 ?u = (1, 1, 2, 1)" "wf_tensor4 ?u" "b_size ?m = (1, 2)"
    "wf_DynamicRouting ?m" "(0::nat) < 1" "(0::nat) < 2"
    by (simp_all add: wf_tensor4_def wf_DynamicRouting_def DynamicRouting_init_def shape_defs)
  note th = coupling_distribution_on_finite_logits[OF hyps]
  have n: "nat (n_iterations ?m) = 1"
    by (simp add: DynamicRouting_init_def)
  have fin: "finite_vec (b ?m ! 0)"
    by (simp add: DynamicRouting_init_def finite_vec_def zero_scalar_def numeral_2_eq_2)
  have tr: "routing_trace ?u [0..<nat 1] (initial_frame ?m ?u) ! 0 =
      (?m, [[[Fin 1, Fin 1]]], [[[Fin (1 / 2)], [Fin (1 / 2)]]])"
    by (simp add: routing_eval_defs numeral_2_eq_2)
  have c1: "is_distribution (softmax_dim1 (b ?m) ! 0)"
    using th[THEN conjunct1, rule_format, of 0] fin by simp
  have c3: "\<exists>c. round_coupling ?u [[[Fin 1, Fin 1]]] = Inr c \<and>
      is_distribution (concat (c ! 0 ! 0))"
    using th[THEN conjunct2, THEN conjunct2, rule_format, of 0 0 0]
    unfolding n using tr by (simp add: finite_vec_def)
  show ?thesis
    using c1 c3 tr by simp
qed

theorem routing_runs_exactly_n_iterations_witness:
  "length (routing_trace \<lparr>size4 = (1, 1, 1, 1), elems4 = [[[[Fin 1]]]]\<rparr> [0..<nat 2]
             (initial_frame (DynamicRouting_init 1 1 2)
                \<lparr>size4 = (1, 1, 1, 1), elems4 = [[[[Fin 1]]]]\<rparr>)) = 2 \<and>
   fst (forward (DynamicRouting_init 1 1 0) \<lparr>size4 = (1, 1, 1, 1), elems4 = [[[[Fin 1]]]]\<rparr>)
     = Inr [[[Fin (1 / 2)]]]"
proof -
  let ?u = "\<lparr>size4 = (1, 1, 1, 1), elems4 = [[[[Fin 1]]]]\<rparr>"
  have hyps: "size4 ?u = (1, 1, 1, 1)" "wf_tensor4 ?u" "b_size (DynamicRouting_init 1 1 n) = (1, 1)"
    "wf_DynamicRouting (DynamicRouting_init 1 1 n)" "(0::nat) < 1" for n
    by (simp_all add: wf_tensor4_def wf_DynamicRouting_def DynamicRouting_init_def shape_defs)
  have a: "length (routing_trace ?u [0..<nat 2] (initial_frame (DynamicRouting_init 1 1 2) ?u)) = 2"
    using routing_runs_exactly_n_iterations[OF hyps(1-5) hyps(5), of 2, THEN conjunct1]
    by (simp add: DynamicRouting_init_def)
  have "fst (forward (DynamicRouting_init 1 1 0) ?u) =
      Inr (squash (spec_weighted_sum (1, 1, 1, 1)
             (\<lambda>n i j. spec_softmax 1 (b (DynamicRouting_init 1 1 0) ! i) j) (elems4 ?u)))"
    using routing_runs_exactly_n_iterations[OF hyps(1-5) hyps(5), of 0,
        THEN conjunct2, THEN conjunct2]
    by (simp add: DynamicRouting_init_def)
  then have b: "fst (forward (DynamicRouting_init 1 1 0) ?u) = Inr [[[Fin (1 / 2)]]]"
    by (simp add: spec_weighted_sum_def spec_softmax_def DynamicRouting_init_def squash_conv
        squash_vec_def ssum_def zero_scalar_def one_scalar_def)
  show ?thesis using a b by simp
qed

text \<open>
  The unguarded division of \<open>squash\<close> reaches the routing: on zero votes the first
  weighted sum is a zero vector, its squash is NaN, and so are the logits and the
  coupling of the next pass and the value returned.
\<close>

lemma forward_zero_votes_nan:
  "fst (forward (DynamicRouting_init 1 1 1) \<lparr>size4 = (1, 1, 1, 1), elems4 = [[[[Fin 0]]]]\<rparr>)
     = Inr [[[NaN]]] \<and>
   routing_trace \<lparr>size4 = (1, 1, 1, 1), elems4 = [[[[Fin 0]]]]\<rparr> [0..<nat 1]
     (initial_frame (DynamicRouting_init 1 1 1)
        \<lparr>size4 = (1, 1, 1, 1), elems4 = [[[[Fin 0]]]]\<rparr>)
     = [(DynamicRouting_init 1 1 1, [[[NaN]]], [[[NaN]]])] \<and>
   round_coupling \<lparr>size4 = (1, 1, 1, 1), elems4 = [[[[Fin 0]]]]\<rparr> [[[NaN]]]
     = Inr [[[[NaN]]]]"
  by (simp add: forward_def routing_eval_defs expand_ok_def bc_ok_def)

text \<open>
  C2. The claim: in \<open>forward\<close> the coupling coefficients of every input capsule are a
  probability distribution at every routing iteration, for any finite logits. The code
  breaks it through the unguarded division of \<open>squash\<close> (the defect of C3): with
  \<open>b = zeros(2, 2)\<close>, one pass, and the votes \<open>[1], [1]\<close> of the first input capsule and
  \<open>[-1], [-1]\<close> of the second, the initial coupling is \<open>1 / 2\<close> everywhere, both weighted
  sums are \<open>1 / 2 - 1 / 2 = 0\<close>, their squash is NaN, and the logits and the coupling of the
  pass are NaN. (The sums are exact in single precision as well.)
\<close>

theorem coupling_nan_after_zero_sum:
  "wf_tensor4 \<lparr>size4 = (1, 2, 2, 1), elems4 = [[[[Fin 1], [Fin 1]], [[Fin (- 1)], [Fin (- 1)]]]]\<rparr> \<and>
   finite_vec (b (DynamicRouting_init 2 2 1) ! 0) \<and>
   finite_vec (b (DynamicRouting_init 2 2 1) ! 1) \<and>
   softmax_dim1 (b (DynamicRouting_init 2 2 1)) = [[Fin (1 / 2), Fin (1 / 2)], [Fin (1 / 2), Fin (1 / 2)]] \<and>
   routing_trace
     \<lparr>size4 = (1, 2, 2, 1), elems4 = [[[[Fin 1], [Fin 1]], [[Fin (- 1)], [Fin (- 1)]]]]\<rparr>
     [0..<nat 1]
     (initial_frame (DynamicRouting_init 2 2 1)
        \<lparr>size4 = (1, 2, 2, 1), elems4 = [[[[Fin 1], [Fin 1]], [[Fin (- 1)], [Fin (- 1)]]]]\<rparr>)
     = [(DynamicRouting_init 2 2 1, [[[NaN, NaN], [NaN, NaN]]], [[[NaN], [NaN]]])] \<and>
   round_coupling
     \<lparr>size4 = (1, 2, 2, 1), elems4 = [[[[Fin 1], [Fin 1]], [[Fin (- 1)], [Fin (- 1)]]]]\<rparr>
     [[[NaN, NaN], [NaN, NaN]]]
     = Inr [[[[NaN], [NaN]], [[NaN], [NaN]]]] \<and>
   \<not> is_distribution [NaN, NaN] \<and>
   fst (forward (DynamicRouting_init 2 2 1)
          \<lparr>size4 = (1, 2, 2, 1), elems4 = [[[[Fin 1], [Fin 1]], [[Fin (- 1)], [Fin (- 1)]]]]\<rparr>)
     = Inr [[[NaN], [NaN]]]"
  by (simp add: forward_def routing_eval_defs expand_ok_def bc_ok_def numeral_2_eq_2
      wf_tensor4_def shape_defs finite_vec_def is_distribution_def)

section \<open>Properties of the margin loss\<close>

lemma scatter_rows_ok:
  "length t = length ts \<Longrightarrow> \<forall>k < length ts. 0 \<le> ts ! k \<and> ts ! k < int (length (t ! k)) \<Longrightarrow>
   scatter_rows t ts = Inr (map2 (\<lambda>row i. row[nat i := 1]) t ts)"
proof (induction t ts rule: list_induct2)
  case Nil
  show ?case by simp
next
  case (Cons row t i ts)
  have "\<forall>k < length ts. 0 \<le> ts ! k \<and> ts ! k < int (length (t ! k))"
    using Cons.prems by auto
  then have "scatter_rows t ts = Inr (map2 (\<lambda>row i. row[nat i := 1]) t ts)"
    by (rule Cons.IH)
  moreover have "0 \<le> i \<and> i < int (length row)"
    using Cons.prems by auto
  ultimately show ?case by simp
qed

lemma loss_entry_target:
  "loss_entry self (Fin 1) (Fin x) = Fin (spec_penalty self True x)"
  by (simp add: loss_entry_def spec_penalty_def Let_def power2_eq_square)

lemma loss_entry_other:
  "loss_entry self (Fin 0) (Fin x) = Fin (spec_penalty self False x)"
  by (simp add: loss_entry_def spec_penalty_def Let_def power2_eq_square)

lemma losses_matrix:
  assumes r: "has_shape2 B C r" and len: "length targets = B"
    and ok: "valid_targets C targets"
  shows "MarginLoss_losses self (embed2 r) targets =
         Inr (embed2 (map (\<lambda>n. map (\<lambda>j. spec_penalty self (int j = targets ! n) (r ! n ! j))
                [0..<C]) [0..<B]))"
proof -
  let ?z = "map (map (\<lambda>_. 0::int)) (embed2 r)"
  have lz: "length ?z = length targets"
    using r len by (simp add: embed2_def has_shape2_iff)
  have rows: "\<forall>k < length targets. 0 \<le> targets ! k \<and> targets ! k < int (length (?z ! k))"
    using r len ok
    by (simp add: embed2_def embed1_def has_shape2_iff valid_targets_def list_all_length)
  have sc: "scatter_inplace ?z targets = Inr (map2 (\<lambda>row i. row[nat i := 1]) ?z targets)"
    using scatter_rows_ok[OF lz rows] lz by (simp add: scatter_inplace_def)
  have "losses self (to_float (map2 (\<lambda>row i. row[nat i := 1]) ?z targets)) (embed2 r) =
        embed2 (map (\<lambda>n. map (\<lambda>j. spec_penalty self (int j = targets ! n) (r ! n ! j))
                [0..<C]) [0..<B])"
  proof (rule t2_eqI[where N = B and D = C])
    show "has_shape2 B C (losses self (to_float (map2 (\<lambda>row i. row[nat i := 1]) ?z targets))
             (embed2 r))"
      using r len
      by (simp add: has_shape2_iff losses_def to_float_def embed2_def embed1_def)
    show "has_shape2 B C (embed2 (map (\<lambda>n. map (\<lambda>j.
             spec_penalty self (int j = targets ! n) (r ! n ! j)) [0..<C]) [0..<B]))"
      by (simp add: has_shape2_iff embed2_def embed1_def)
    fix n j assume nj: "n < B" "j < C"
    then have t: "0 \<le> targets ! n"
      using ok len by (simp add: valid_targets_def list_all_length)
    have eq: "(nat (targets ! n) = j) = (int j = targets ! n)"
      using t by auto
    have tl: "nat (targets ! n) < C"
      using ok len nj by (auto simp: valid_targets_def list_all_length)
    show "losses self (to_float (map2 (\<lambda>row i. row[nat i := 1]) ?z targets)) (embed2 r) ! n ! j
        = embed2 (map (\<lambda>n. map (\<lambda>j. spec_penalty self (int j = targets ! n) (r ! n ! j))
                [0..<C]) [0..<B]) ! n ! j"
      using r len nj tl
      by (simp add: has_shape2_iff losses_def to_float_def embed2_def embed1_def
          nth_list_update eq loss_entry_target loss_entry_other)
  qed
  then show ?thesis
    by (simp add: MarginLoss_losses_def sc)
qed

lemma sum_list_concat_table:
  "sum_list (concat (map (\<lambda>n. map (f n) [0..<C]) [0..<B])) =
   (\<Sum>n\<leftarrow>[0..<B]. \<Sum>j\<leftarrow>[0..<C]. (f n j :: real))"
  by (induction B) simp_all

lemma length_concat_table:
  "length (concat (map (\<lambda>n. map (f n) [0..<C]) [0..<B])) = B * C"
  by (induction B) simp_all

lemma concat_embed2: "concat (embed2 P) = map Fin (concat P)"
  by (simp add: embed2_def embed1_def[abs_def] map_concat)

text \<open>
  C7. For every finite lengths tensor of shape \<open>[B, C]\<close> with \<open>B > 0\<close> and every vector of
  \<open>B\<close> valid target indices, the loss matrix of \<open>MarginLoss\<close> holds at every entry
  \<open>max(0, m_plus - length)\<^sup>2\<close> for the target class and \<open>lambda \<cdot> max(0, length - m_minus)\<^sup>2\<close>
  for every other class; \<open>forward\<close> returns the mean over the \<open>B \<cdot> C\<close> entries when
  \<open>loss_sum\<close> is true and their sum when it is false. An entry of the target class with
  length exactly \<open>m_plus\<close> is 0, and so is an entry of another class with length exactly
  \<open>m_minus\<close>.
\<close>

theorem margin_loss_computes_penalties:
  assumes "has_shape2 B C r" and "length targets = B" and "valid_targets C targets"
    and "0 < B"
  shows "\<exists>l. MarginLoss_losses self (embed2 r) targets = Inr l \<and> has_shape2 B C l \<and>
           (\<forall>n < B. \<forall>j < C.
              l ! n ! j = Fin (spec_penalty self (int j = targets ! n) (r ! n ! j)) \<and>
              (int j = targets ! n \<and> r ! n ! j = m_plus self \<longrightarrow> l ! n ! j = Fin 0) \<and>
              (int j \<noteq> targets ! n \<and> r ! n ! j = m_minus self \<longrightarrow> l ! n ! j = Fin 0)) \<and>
           MarginLoss_forward self (embed2 r) targets True =
             Inr (Fin ((\<Sum>n\<leftarrow>[0..<B]. \<Sum>j\<leftarrow>[0..<C].
                          spec_penalty self (int j = targets ! n) (r ! n ! j)) / real (B * C))) \<and>
           MarginLoss_forward self (embed2 r) targets False =
             Inr (Fin (\<Sum>n\<leftarrow>[0..<B]. \<Sum>j\<leftarrow>[0..<C].
                          spec_penalty self (int j = targets ! n) (r ! n ! j)))"
proof -
  let ?P = "map (\<lambda>n. map (\<lambda>j. spec_penalty self (int j = targets ! n) (r ! n ! j))
                [0..<C]) [0..<B]"
  note lm = losses_matrix[OF assms(1-3), of self]
  have "targets ! 0 < int C" "0 \<le> targets ! 0"
    using assms(2-4) by (simp_all add: valid_targets_def list_all_length)
  then have C: "0 < C" by linarith
  have sh: "has_shape2 B C (embed2 ?P)"
    by (simp add: has_shape2_iff embed2_def embed1_def)
  have entry: "embed2 ?P ! n ! j = Fin (spec_penalty self (int j = targets ! n) (r ! n ! j))"
    if "n < B" "j < C" for n j
    using that by (simp add: embed2_def embed1_def)
  have s: "sum_all (embed2 ?P) = Fin (\<Sum>n\<leftarrow>[0..<B]. \<Sum>j\<leftarrow>[0..<C].
                          spec_penalty self (int j = targets ! n) (r ! n ! j))"
    unfolding sum_all_def concat_embed2 ssum_Fin sum_list_concat_table ..
  have len: "length (concat (embed2 ?P)) = B * C"
    unfolding concat_embed2 by (simp add: length_concat_table)
  have m: "mean_all (embed2 ?P) = Fin ((\<Sum>n\<leftarrow>[0..<B]. \<Sum>j\<leftarrow>[0..<C].
                          spec_penalty self (int j = targets ! n) (r ! n ! j)) / real (B * C))"
    using C assms(4) by (simp add: mean_all_def s len)
  have "MarginLoss_losses self (embed2 r) targets = Inr (embed2 ?P) \<and> has_shape2 B C (embed2 ?P) \<and>
           (\<forall>n < B. \<forall>j < C.
              embed2 ?P ! n ! j = Fin (spec_penalty self (int j = targets ! n) (r ! n ! j)) \<and>
              (int j = targets ! n \<and> r ! n ! j = m_plus self \<longrightarrow> embed2 ?P ! n ! j = Fin 0) \<and>
              (int j \<noteq> targets ! n \<and> r ! n ! j = m_minus self \<longrightarrow> embed2 ?P ! n ! j = Fin 0)) \<and>
           MarginLoss_forward self (embed2 r) targets True =
             Inr (Fin ((\<Sum>n\<leftarrow>[0..<B]. \<Sum>j\<leftarrow>[0..<C].
                          spec_penalty self (int j = targets ! n) (r ! n ! j)) / real (B * C))) \<and>
           MarginLoss_forward self (embed2 r) targets False =
             Inr (Fin (\<Sum>n\<leftarrow>[0..<B]. \<Sum>j\<leftarrow>[0..<C].
                          spec_penalty self (int j = targets ! n) (r ! n ! j)))"
  proof (intro conjI allI impI)
    show "MarginLoss_losses self (embed2 r) targets = Inr (embed2 ?P)" by (rule lm)
    show "has_shape2 B C (embed2 ?P)" by (rule sh)
    show "MarginLoss_forward self (embed2 r) targets True =
             Inr (Fin ((\<Sum>n\<leftarrow>[0..<B]. \<Sum>j\<leftarrow>[0..<C].
                          spec_penalty self (int j = targets ! n) (r ! n ! j)) / real (B * C)))"
      by (simp add: MarginLoss_forward_def lm m)
    show "MarginLoss_forward self (embed2 r) targets False =
             Inr (Fin (\<Sum>n\<leftarrow>[0..<B]. \<Sum>j\<leftarrow>[0..<C].
                          spec_penalty self (int j = targets ! n) (r ! n ! j)))"
      by (simp add: MarginLoss_forward_def lm s)
  next
    fix n j assume nj: "n < B" "j < C"
    show "embed2 ?P ! n ! j = Fin (spec_penalty self (int j = targets ! n) (r ! n ! j))"
      by (rule entry[OF nj])
    show "embed2 ?P ! n ! j = Fin 0" if "int j = targets ! n \<and> r ! n ! j = m_plus self"
      unfolding entry[OF nj] using that by (simp add: spec_penalty_def)
    show "embed2 ?P ! n ! j = Fin 0" if "int j \<noteq> targets ! n \<and> r ! n ! j = m_minus self"
      unfolding entry[OF nj] using that by (simp add: spec_penalty_def)
  qed
  then show ?thesis by blast
qed

theorem margin_loss_computes_penalties_witness:
  "MarginLoss_forward \<lparr>m_plus = 9 / 10, m_minus = 1 / 10, lambda = 1 / 2\<rparr>
     (embed2 [[9 / 10, 1 / 10], [1 / 2, 1]]) [0, 1] True = Inr (Fin (1 / 50)) \<and>
   MarginLoss_forward \<lparr>m_plus = 9 / 10, m_minus = 1 / 10, lambda = 1 / 2\<rparr>
     (embed2 [[9 / 10, 1 / 10], [1 / 2, 1]]) [0, 1] False = Inr (Fin (2 / 25)) \<and>
   (\<exists>l. MarginLoss_losses \<lparr>m_plus = 9 / 10, m_minus = 1 / 10, lambda = 1 / 2\<rparr>
          (embed2 [[9 / 10, 1 / 10], [1 / 2, 1]]) [0, 1] = Inr l \<and>
        l ! 0 ! 0 = Fin 0 \<and> l ! 0 ! 1 = Fin 0)"
proof -
  let ?self = "\<lparr>m_plus = 9 / 10, m_minus = 1 / 10, lambda = 1 / 2\<rparr>"
  let ?r = "[[9 / 10, 1 / 10], [1 / 2, 1 :: real]]"
  have hyps: "has_shape2 2 2 ?r" "length [0, 1 :: int] = 2" "valid_targets 2 [0, 1]" "(0::nat) < 2"
    by (simp_all add: shape_defs valid_targets_def)
  obtain l where l: "MarginLoss_losses ?self (embed2 ?r) [0, 1] = Inr l"
      and e: "\<forall>n < 2. \<forall>j < 2.
              l ! n ! j = Fin (spec_penalty ?self (int j = [0, 1] ! n) (?r ! n ! j)) \<and>
              (int j = [0, 1] ! n \<and> ?r ! n ! j = m_plus ?self \<longrightarrow> l ! n ! j = Fin 0) \<and>
              (int j \<noteq> [0, 1] ! n \<and> ?r ! n ! j = m_minus ?self \<longrightarrow> l ! n ! j = Fin 0)"
      and m: "MarginLoss_forward ?self (embed2 ?r) [0, 1] True =
             Inr (Fin ((\<Sum>n\<leftarrow>[0..<2]. \<Sum>j\<leftarrow>[0..<2].
                          spec_penalty ?self (int j = [0, 1] ! n) (?r ! n ! j)) / real (2 * 2)))"
      and s: "MarginLoss_forward ?self (embed2 ?r) [0, 1] False =
             Inr (Fin (\<Sum>n\<leftarrow>[0..<2]. \<Sum>j\<leftarrow>[0..<2].
                          spec_penalty ?self (int j = [0, 1] ! n) (?r ! n ! j)))"
    using margin_loss_computes_penalties[OF hyps, of ?self] by blast
  have up: "[0..<2] = [0, 1]" by (simp add: upt_rec numeral_2_eq_2)
  have m': "MarginLoss_forward ?self (embed2 ?r) [0, 1] True = Inr (Fin (1 / 50))"
    unfolding m up by (simp add: spec_penalty_def power2_eq_square)
  have s': "MarginLoss_forward ?self (embed2 ?r) [0, 1] False = Inr (Fin (2 / 25))"
    unfolding s up by (simp add: spec_penalty_def power2_eq_square)
  have "l ! 0 ! 0 = Fin 0" "l ! 0 ! 1 = Fin 0"
    using e[rule_format, of 0 0] e[rule_format, of 0 1] by (simp_all add: spec_penalty_def)
  then show ?thesis using l m' s' by simp
qed

section \<open>Shapes through the capsule network\<close>

lemma Conv2d_forward_shape:
  assumes sz: "size4 x = (N, C, H, W)" and wf: "wf_tensor4 x"
    and c: "C = in_channels m" and hk: "kernel_size m \<le> H" "kernel_size m \<le> W"
  shows "\<exists>out. Conv2d_forward m x = Inr out \<and>
           size4 out = (N, out_channels m, conv_out H (kernel_size m) (stride m),
                        conv_out W (kernel_size m) (stride m)) \<and>
           wf_tensor4 out"
proof -
  have len: "length (elems4 x) = N"
    using wf sz by (simp add: wf_tensor4_def has_shape4_def)
  show ?thesis
    using c hk len
    by (simp add: Conv2d_forward_def sz Let_def wf_tensor4_def has_shape4_iff)
qed

lemma relu4_shape: "wf_tensor4 x \<Longrightarrow> wf_tensor4 (relu4 x)"
  by (auto simp: relu4_def wf_tensor4_def has_shape4_iff)

lemma relu4_size: "size4 (relu4 x) = size4 x"
  by (simp add: relu4_def)

lemma chunks_shape:
  "length xs = k * n \<Longrightarrow> has_shape2 k n (chunks k n xs)"
proof (induction k arbitrary: xs)
  case 0
  show ?case by (simp add: has_shape2_def)
next
  case (Suc k)
  have "length (drop n xs) = k * n" using Suc.prems by simp
  then have "has_shape2 k n (chunks k n (drop n xs))" by (rule Suc.IH)
  then show ?case
    using Suc.prems by (simp add: has_shape2_def has_shape1_def)
qed

lemma length_chunks: "length (chunks k n xs) = k"
  by (induction k arbitrary: xs) simp_all

lemma length_concat_uniform:
  "\<forall>x \<in> set xs. length x = n \<Longrightarrow> length (concat xs) = length xs * n"
  by (induction xs) simp_all

lemma norms_shape: "has_shape3 B N D x \<Longrightarrow> has_shape2 B N (norms x)"
  by (simp add: norms_def sum_dim2_def pow2_def has_shape3_iff has_shape2_iff)

lemma norms_nth:
  "has_shape3 B N D x \<Longrightarrow> k < B \<Longrightarrow> j < N \<Longrightarrow>
   norms x ! k ! j = ssqrt (ssum (map (\<lambda>e. e * e) (x ! k ! j)))"
  by (simp add: norms_def sum_dim2_def pow2_def has_shape3_iff)


lemma FirstCapsuleLayer_forward_shape:
  assumes cv: "Conv2d_forward (FirstCapsuleLayer.conv1 self) x = Inr out"
    and sz: "size4 out = (N, C, H, W)" and wf: "wf_tensor4 out"
    and c: "C = FirstCapsuleLayer.output_caps self * FirstCapsuleLayer.output_dim self"
    and pos: "0 < N" "0 < FirstCapsuleLayer.output_dim self"
  shows "\<exists>r. FirstCapsuleLayer_forward self x = Inr r \<and>
           size3 r = (N, FirstCapsuleLayer.output_caps self * H * W,
                      FirstCapsuleLayer.output_dim self) \<and>
           wf_tensor3 r"
proof -
  let ?caps = "FirstCapsuleLayer.output_caps self"
  let ?dim = "FirstCapsuleLayer.output_dim self"
  let ?caps3 = "map (\<lambda>item. concat (map concat item))
      (map (map (permute_01342 ?dim H W)) (map (chunks ?caps ?dim) (elems4 out)))"
  have sh: "has_shape4 N C H W (elems4 out)"
    using wf sz by (simp add: wf_tensor4_def)
  have d: "(N * ?caps * H * W * ?dim) div (N * ?dim) = ?caps * H * W"
  proof -
    have "N * ?caps * H * W * ?dim = (?caps * H * W) * (N * ?dim)"
      by (simp add: mult_ac)
    then show ?thesis using pos by simp
  qed
  have m: "(N * ?caps * H * W * ?dim) mod (N * ?dim) = 0"
  proof -
    have "N * ?caps * H * W * ?dim = (?caps * H * W) * (N * ?dim)"
      by (simp add: mult_ac)
    then show ?thesis by simp
  qed
  have item: "has_shape2 (?caps * H * W) ?dim
      (concat (map concat (map (permute_01342 ?dim H W) (chunks ?caps ?dim it))))" for it
  proof -
    let ?p = "map (permute_01342 ?dim H W) (chunks ?caps ?dim it)"
    have a: "\<forall>y \<in> set (map concat ?p). length y = H * W"
      by (auto simp: permute_01342_def intro!: trans[OF length_concat_uniform])
    have "length (concat (map concat ?p)) = length (map concat ?p) * (H * W)"
      by (rule length_concat_uniform[OF a])
    moreover have "\<forall>v \<in> set (concat (map concat ?p)). length v = ?dim"
      by (auto simp: permute_01342_def)
    ultimately show ?thesis
      by (simp add: has_shape2_def has_shape1_def list_all_iff mult.assoc length_chunks)
  qed
  have sq: "has_shape3 N (?caps * H * W) ?dim (squash ?caps3)"
    using sh by (intro squash_shape) (simp add: has_shape3_def has_shape4_def list_all_iff item[simplified])
  have sq': "has_shape3 N (H * (W * ?caps)) ?dim (squash ?caps3)"
    using sq by (simp add: mult_ac)
  show ?thesis
    using pos
    by (simp add: FirstCapsuleLayer_forward_def cv sz c Let_def d m wf_tensor3_def sq' mult_ac
        del: map_map)
qed


lemma view_votes_shape:
  assumes "has_shape3 I 1 (D * J) item"
  shows "has_shape3 I J D (view_votes I J D item)"
proof -
  have "\<forall>r \<in> set (concat item). length r = D * J"
    using assms by (auto simp: has_shape3_def has_shape2_def has_shape1_def list_all_iff)
  then have "length (concat (concat item)) = length (concat item) * (D * J)"
    by (rule length_concat_uniform)
  moreover have "length (concat item) = length item * 1"
    using assms
    by (intro length_concat_uniform) (auto simp: has_shape3_def has_shape2_def list_all_iff)
  moreover have "length item = I"
    using assms by (simp add: has_shape3_def)
  ultimately have "length (concat (concat item)) = I * (J * D)"
    by (simp add: mult_ac)
  then have "has_shape2 I (J * D) (chunks I (J * D) (concat (concat item)))"
    by (rule chunks_shape)
  then show ?thesis
    by (auto simp: view_votes_def has_shape3_def has_shape2_def[of I] has_shape1_def
        list_all_iff intro!: chunks_shape)
qed

lemma matmul_shape:
  assumes "has_shape3 N I K x" and "length w = I"
  shows "has_shape4 N I 1 M (matmul K M (unsqueeze2_3 x) w)"
  using assms
  by (simp add: matmul_def unsqueeze2_3_def bcast_same_len has_shape4_iff has_shape3_iff
      vec_mat_def)

lemma CapsLayer_forward_shape:
  assumes sz: "size3 x = (N, input_caps self, input_dim self)" and wf: "wf_tensor3 x"
    and wfl: "wf_CapsLayer self"
    and rb: "b_size (routing_module self) = (input_caps self, CapsLayer.output_caps self)"
    and pos: "0 < input_caps self" "0 < CapsLayer.output_caps self"
  shows "\<exists>v. fst (CapsLayer_forward self x) = Inr v \<and>
           has_shape3 N (CapsLayer.output_caps self) (CapsLayer.output_dim self) v"
proof -
  let ?I = "input_caps self" and ?J = "CapsLayer.output_caps self"
  let ?D = "CapsLayer.output_dim self" and ?K = "input_dim self"
  let ?rm = "routing_module self"
  let ?prod = "matmul ?K (?D * ?J) (unsqueeze2_3 (elems3 x)) (weights self)"
  let ?u = "\<lparr>size4 = (N, ?I, ?J, ?D), elems4 = map (view_votes ?I ?J ?D) ?prod\<rparr>"
  have x: "has_shape3 N ?I ?K (elems3 x)"
    using wf sz by (simp add: wf_tensor3_def)
  have w: "length (weights self) = ?I"
    using wfl by (simp add: wf_CapsLayer_def has_shape3_def)
  have p: "has_shape4 N ?I 1 (?D * ?J) ?prod"
    by (rule matmul_shape[OF x w])
  have u: "wf_tensor4 ?u"
    using p
    by (auto simp: wf_tensor4_def has_shape4_def list_all_iff intro!: view_votes_shape)
  have rm: "wf_DynamicRouting ?rm"
    using wfl by (simp add: wf_CapsLayer_def)
  have bb: "has_shape2 ?I ?J (b ?rm)"
    using rm rb by (simp add: wf_DynamicRouting_def)
  have fw: "forward ?rm ?u = (Inr (spec_routing (b ?rm) (nat (n_iterations ?rm)) ?u), ?rm)"
    by (rule forward_spec[OF _ u rb rm]) (simp_all add: pos)
  have sh: "has_shape3 N ?J ?D (spec_routing (b ?rm) (nat (n_iterations ?rm)) ?u)"
    by (rule spec_routing_shape[OF _ bb]) simp
  have num: "(N * ?I * (?D * ?J) = N * ?I * ?J * ?D) = True"
    by (simp add: mult_ac)
  show ?thesis
    using sh
    by (simp add: CapsLayer_forward_def sz bc_ok_def bdim_same Let_def fw num
        del: map_map mult_cancel_left)
qed


text \<open>
  C8. For an input of shape \<open>[B, 1, 28, 28]\<close> with \<open>B > 0\<close> and a network built by the
  constructor for \<open>n_classes > 0\<close>: the first convolution (kernel 9, stride 1) yields
  \<open>[B, 256, 20, 20]\<close>; the convolution of the primary capsule layer (32 capsule types of
  dimension 8, kernel 9, stride 2) yields \<open>[B, 256, 6, 6]\<close>, so the layer returns
  \<open>32 \<cdot> 6 \<cdot> 6 = 1152\<close> capsules, shape \<open>[B, 1152, 8]\<close>; the capsule layer returns shape
  \<open>[B, n_classes, 16]\<close>; and the probabilities have shape \<open>[B, n_classes]\<close>, each the
  Euclidean norm (square root of the sum of squares) of the capsule vector of its class.
\<close>

theorem capsule_net_shapes:
  assumes "size4 x = (B, 1, 28, 28)" and "wf_tensor4 x" and "0 < B" and "0 < n_classes"
    and "net = CapsuleNet_init routing_iterations n_classes w1 b1 w2 b2 ws bb"
    and "wf_CapsuleNet net"
  shows "\<exists>x1 x2 x3 v probs.
      Conv2d_forward (CapsuleNet.conv1 net) x = Inr x1 \<and>
      size4 x1 = (B, 256, 20, 20) \<and> wf_tensor4 x1 \<and>
      Conv2d_forward (FirstCapsuleLayer.conv1 (firstCaps net)) (relu4 x1) = Inr x2 \<and>
      size4 x2 = (B, 32 * 8, 6, 6) \<and>
      FirstCapsuleLayer_forward (firstCaps net) (relu4 x1) = Inr x3 \<and>
      size3 x3 = (B, 32 * 6 * 6, 8) \<and> wf_tensor3 x3 \<and>
      num_firstCaps net = 32 * 6 * 6 \<and> 32 * 6 * 6 = (1152 :: nat) \<and>
      fst (CapsLayer_forward (Caps net) x3) = Inr v \<and> has_shape3 B n_classes 16 v \<and>
      fst (CapsuleNet_forward net x) = Inr (v, probs) \<and> has_shape2 B n_classes probs \<and>
      (\<forall>k < B. \<forall>j < n_classes. probs ! k ! j = ssqrt (ssum (map (\<lambda>e. e * e) (v ! k ! j))))"
proof -
  let ?c1 = "CapsuleNet.conv1 net" and ?fc = "firstCaps net" and ?cl = "Caps net"
  have c1: "in_channels ?c1 = 1" "out_channels ?c1 = 256" "kernel_size ?c1 = 9" "stride ?c1 = 1"
    by (simp_all add: assms(5) CapsuleNet_init_def Let_def)
  have fc: "in_channels (FirstCapsuleLayer.conv1 ?fc) = 256"
    "out_channels (FirstCapsuleLayer.conv1 ?fc) = 256"
    "kernel_size (FirstCapsuleLayer.conv1 ?fc) = 9" "stride (FirstCapsuleLayer.conv1 ?fc) = 2"
    "FirstCapsuleLayer.output_caps ?fc = 32" "FirstCapsuleLayer.output_dim ?fc = 8"
    by (simp_all add: assms(5) CapsuleNet_init_def Let_def FirstCapsuleLayer_init_def)
  have cl: "input_caps ?cl = 1152" "input_dim ?cl = 8" "CapsLayer.output_caps ?cl = n_classes"
    "CapsLayer.output_dim ?cl = 16" "b_size (routing_module ?cl) = (1152, n_classes)"
    "num_firstCaps net = 32 * 6 * 6"
    by (simp_all add: assms(5) CapsuleNet_init_def Let_def DynamicRouting_init_def)
  have wfl: "wf_CapsLayer ?cl"
    using assms(6) by (simp add: wf_CapsuleNet_def)
  obtain x1 where x1: "Conv2d_forward ?c1 x = Inr x1" "size4 x1 = (B, 256, 20, 20)"
      "wf_tensor4 x1"
    using Conv2d_forward_shape[OF assms(1,2), of ?c1] by (auto simp: c1 conv_out_def)
  have r1: "size4 (relu4 x1) = (B, 256, 20, 20)" "wf_tensor4 (relu4 x1)"
    using x1 by (simp_all add: relu4_size relu4_shape)
  obtain out where out: "Conv2d_forward (FirstCapsuleLayer.conv1 ?fc) (relu4 x1) = Inr out"
      "size4 out = (B, 256, 6, 6)" "wf_tensor4 out"
    using Conv2d_forward_shape[OF r1, of "FirstCapsuleLayer.conv1 ?fc"]
    by (auto simp: fc conv_out_def)
  obtain x3 where x3: "FirstCapsuleLayer_forward ?fc (relu4 x1) = Inr x3"
      "size3 x3 = (B, 32 * 6 * 6, 8)" "wf_tensor3 x3"
    using FirstCapsuleLayer_forward_shape[OF out, of] assms(3) by (auto simp: fc)
  have sz3: "size3 x3 = (B, input_caps ?cl, input_dim ?cl)"
    using x3(2) by (simp add: cl)
  obtain v where v: "fst (CapsLayer_forward ?cl x3) = Inr v" "has_shape3 B n_classes 16 v"
    using CapsLayer_forward_shape[OF sz3 x3(3) wfl] assms(4) by (auto simp: cl)
  have fw: "fst (CapsuleNet_forward net x) = Inr (v, norms v)"
    using v(1) by (auto simp: CapsuleNet_forward_def x1(1) x3(1) split: prod.splits sum.splits)
  show ?thesis
    using x1 out(1,2) x3 v fw norms_shape[OF v(2)] norms_nth[OF v(2)] cl(6) by auto
qed


theorem capsule_net_shapes_witness:
  "\<exists>v probs.
     fst (CapsuleNet_forward
            (CapsuleNet_init 3 10
               (replicate 256 (replicate 1 (replicate 9 (replicate 9 0)))) (replicate 256 0)
               (replicate 256 (replicate 256 (replicate 9 (replicate 9 0)))) (replicate 256 0)
               (replicate 1152 (replicate 8 (replicate 160 0)))
               (replicate 1152 (replicate 10 0)))
            \<lparr>size4 = (1, 1, 28, 28),
               elems4 = replicate 1 (replicate 1 (replicate 28 (replicate 28 0)))\<rparr>)
       = Inr (v, probs) \<and>
     has_shape3 1 10 16 v \<and> has_shape2 1 10 probs"
proof -
  let ?x = "\<lparr>size4 = (1, 1, 28, 28),
               elems4 = replicate 1 (replicate 1 (replicate 28 (replicate 28 (0::scalar))))\<rparr>"
  let ?net = "CapsuleNet_init 3 10
               (replicate 256 (replicate 1 (replicate 9 (replicate 9 0)))) (replicate 256 0)
               (replicate 256 (replicate 256 (replicate 9 (replicate 9 0)))) (replicate 256 0)
               (replicate 1152 (replicate 8 (replicate 160 0)))
               (replicate 1152 (replicate 10 0))"
  have h1: "size4 ?x = (1, 1, 28, 28)" by simp
  have h2: "wf_tensor4 ?x"
    by (simp add: wf_tensor4_def has_shape4_iff)
  have h3: "wf_CapsuleNet ?net"
    by (simp add: wf_CapsuleNet_def wf_Conv2d_def wf_CapsLayer_def wf_DynamicRouting_def
        CapsuleNet_init_def FirstCapsuleLayer_init_def DynamicRouting_init_def Let_def
        has_shape4_iff has_shape3_iff has_shape2_iff has_shape1_def)
  have h4: "(0::nat) < 1" "(0::nat) < 10" by simp_all
  show ?thesis
    using capsule_net_shapes[OF h1 h2 h4 refl h3] by blast
qed

end
